theory Spec2Isabelle
  imports Main "HOL-Library.AList"
begin

section \<open>Python values used by the adapter\<close>

text \<open>
  The exceptions the adapter can end with. \<open>Exception\<close> is Python's root class raised
  directly with a message, \<open>IndexError\<close> and \<open>KeyError\<close> come from list and dict
  subscripts, \<open>ClientError\<close> is an error raised by the provider client and propagated
  unchanged (no call of the source is inside a \<open>try\<close>).
\<close>

datatype exn = Exception string | IndexError | KeyError string | ClientError string

fun exn_class :: "exn \<Rightarrow> string" where
  "exn_class (Exception msg) = ''Exception''"
| "exn_class IndexError = ''IndexError''"
| "exn_class (KeyError k) = ''KeyError''"
| "exn_class (ClientError code) = ''ClientError''"

text \<open>
  A Python \<open>dict\<close> with string keys is an association list in insertion order with
  distinct keys. \<open>dict(pairs)\<close> inserts the pairs from left to right: a repeated key
  keeps its first position and takes the last value.
\<close>

type_synonym py_dict = "(string \<times> string) list"

definition dict :: "(string \<times> string) list \<Rightarrow> py_dict" where
  "dict pairs = foldl (\<lambda>d kv. AList.update (fst kv) (snd kv) d) [] pairs"

definition contains :: "py_dict \<Rightarrow> string \<Rightarrow> bool" where
  "contains d k = (map_of d k \<noteq> None)"

definition subscript :: "py_dict \<Rightarrow> string \<Rightarrow> exn + string" where
  "subscript d k = (case map_of d k of None \<Rightarrow> Inl (KeyError k) | Some v \<Rightarrow> Inr v)"

text \<open>
  \<open>d[k]\<close> for a key \<open>k\<close> taken from an iteration over \<open>d\<close> itself, where the
  lookup cannot fail.
\<close>

definition value_of :: "py_dict \<Rightarrow> string \<Rightarrow> string" where
  "value_of d k = (case map_of d k of None \<Rightarrow> [] | Some v \<Rightarrow> v)"

text \<open>
  \<open>sorted(xs, key=f, reverse=True)\<close>: descending by key and stable, elements with equal
  keys keep their original order (the list is reversed, sorted stably, reversed again).
\<close>

definition sorted_reverse :: "('a \<Rightarrow> int) \<Rightarrow> 'a list \<Rightarrow> 'a list" where
  "sorted_reverse f xs = rev (sort_key f (rev xs))"

section \<open>The provider API seen through the boto3 client\<close>

text \<open>Keyword arguments of a client call, by name, and the values the adapter passes.\<close>

datatype py_value =
  Str string | Num nat | Bool bool | StrList "string list" | TagItems "(string \<times> string) list"
| PyNone

type_synonym kwargs = "(string \<times> py_value) list"

datatype operation =
  describe_db_snapshots | describe_db_instances | copy_db_snapshot | create_db_snapshot
| delete_db_snapshot | add_tags_to_resource | list_tags_for_resource
| modify_db_snapshot_attribute

record db_snapshot =
  DBSnapshotIdentifier :: string
  DBSnapshotArn :: string
  Status :: string
  SnapshotCreateTime :: int
  SnapshotType :: string
  snapshot_DBInstanceIdentifier :: string

record db_instance =
  DBInstanceIdentifier :: string
  DBInstanceArn :: string
  InstanceCreateTime :: int

text \<open>
  A response is the dictionary the client returns; the selectors are its keys. A
  continuation marker is an opaque token, here the index of the next page; the key
  \<open>Marker\<close> is absent from the response when the selector gives \<open>None\<close>.
\<close>

datatype response =
  SnapshotsResponse (DBSnapshots: "db_snapshot list") (Marker: "nat option")
| InstancesResponse (DBInstances: "db_instance list") (Marker: "nat option")
| TagsResponse (TagList: "(string \<times> string) list")
| EmptyResponse

text \<open>
  The catalogue of one region: the pages in which the provider lists instances and
  snapshots, and the tags of every resource by ARN. The account holds one catalogue per
  region, the session's default region, the requests the provider rejects (with the
  error code it answers), and the log of every request received, oldest first.
\<close>

record rds_region =
  instance_pages :: "db_instance list list"
  snapshot_pages :: "db_snapshot list list"
  resource_tags :: "string \<Rightarrow> (string \<times> string) list"

record aws =
  region_name :: string
  rds :: "string \<Rightarrow> rds_region"
  faults :: "string \<Rightarrow> operation \<Rightarrow> kwargs \<Rightarrow> string option"
  calls :: "(string \<times> operation \<times> kwargs) list"

definition no_faults :: "string \<Rightarrow> operation \<Rightarrow> kwargs \<Rightarrow> string option" where
  "no_faults = (\<lambda>client op kw. None)"

text \<open>\<open>boto3.client('rds', region_name=r)\<close>; without a region, the session's region.\<close>

fun boto3_client :: "aws \<Rightarrow> string option \<Rightarrow> string" where
  "boto3_client w None = region_name w"
| "boto3_client w (Some r) = r"

definition kw_str :: "kwargs \<Rightarrow> string \<Rightarrow> string option" where
  "kw_str kw k = (case map_of kw k of Some (Str s) \<Rightarrow> Some s | _ \<Rightarrow> None)"

definition kw_num :: "kwargs \<Rightarrow> string \<Rightarrow> nat option" where
  "kw_num kw k = (case map_of kw k of Some (Num n) \<Rightarrow> Some n | _ \<Rightarrow> None)"

definition kw_tags :: "kwargs \<Rightarrow> string \<Rightarrow> (string \<times> string) list" where
  "kw_tags kw k = (case map_of kw k of Some (TagItems ts) \<Rightarrow> ts | _ \<Rightarrow> [])"

definition serve_page :: "'a list list \<Rightarrow> nat \<Rightarrow> 'a list \<times> nat option" where
  "serve_page pages k =
     (if k < length pages
      then (pages ! k, if Suc k < length pages then Some (Suc k) else None)
      else ([], None))"

definition selects :: "kwargs \<Rightarrow> db_snapshot \<Rightarrow> bool" where
  "selects kw s =
     ((case kw_str kw ''DBSnapshotIdentifier'' of
         None \<Rightarrow> True | Some i \<Rightarrow> DBSnapshotIdentifier s = i) \<and>
      (case kw_str kw ''DBInstanceIdentifier'' of
         None \<Rightarrow> True | Some i \<Rightarrow> snapshot_DBInstanceIdentifier s = i) \<and>
      (case kw_str kw ''SnapshotType'' of
         None \<Rightarrow> True | Some t \<Rightarrow> SnapshotType s = t))"

definition is_listing :: "kwargs \<Rightarrow> bool" where
  "is_listing kw =
     (kw_str kw ''DBSnapshotIdentifier'' = None \<and> kw_str kw ''DBInstanceIdentifier'' = None \<and>
      kw_str kw ''SnapshotType'' = None \<and> kw_num kw ''MaxRecords'' = None)"

definition limit :: "kwargs \<Rightarrow> 'a list \<Rightarrow> 'a list" where
  "limit kw xs = (case kw_num kw ''MaxRecords'' of None \<Rightarrow> xs | Some n \<Rightarrow> take n xs)"

text \<open>
  What the provider answers. A plain listing is served page by page: the request
  without \<open>Marker\<close> gets the first page, the request with marker \<open>k\<close> page \<open>k\<close>, and
  the response carries a marker as long as a page follows. A request that names a
  snapshot, an instance or a snapshot type gets the matching snapshots of the region,
  in catalogue order, at most \<open>MaxRecords\<close> of them.
\<close>

fun answer :: "rds_region \<Rightarrow> operation \<Rightarrow> kwargs \<Rightarrow> response" where
  "answer r describe_db_instances kw =
     (case serve_page (instance_pages r) (case kw_num kw ''Marker'' of None \<Rightarrow> 0 | Some k \<Rightarrow> k) of
        (page, m) \<Rightarrow> InstancesResponse page m)"
| "answer r describe_db_snapshots kw =
     (if is_listing kw
      then (case serve_page (snapshot_pages r)
                   (case kw_num kw ''Marker'' of None \<Rightarrow> 0 | Some k \<Rightarrow> k) of
              (page, m) \<Rightarrow> SnapshotsResponse page m)
      else SnapshotsResponse (limit kw (filter (selects kw) (concat (snapshot_pages r)))) None)"
| "answer r list_tags_for_resource kw =
     (case kw_str kw ''ResourceName'' of
        None \<Rightarrow> TagsResponse []
      | Some arn \<Rightarrow> TagsResponse (resource_tags r arn))"
| "answer r copy_db_snapshot kw = EmptyResponse"
| "answer r create_db_snapshot kw = EmptyResponse"
| "answer r delete_db_snapshot kw = EmptyResponse"
| "answer r add_tags_to_resource kw = EmptyResponse"
| "answer r modify_db_snapshot_attribute kw = EmptyResponse"

text \<open>The tags a resource has after \<open>add_tags_to_resource\<close> with the tags \<open>new\<close>.\<close>

definition tags_after_adding ::
  "(string \<times> string) list \<Rightarrow> (string \<times> string) list \<Rightarrow> (string \<times> string) list" where
  "tags_after_adding old new = foldl (\<lambda>d kv. AList.update (fst kv) (snd kv) d) old new"

text \<open>
  What a request changes in the catalogue. \<open>add_tags_to_resource\<close> adds the given tags
  to the resource, overwriting the value of a key it already has and keeping its other
  tags. The snapshots that create, copy, delete and modify requests would add or remove
  are not followed: these requests are kept in the log \<open>calls\<close>, with their arguments.
\<close>

fun effect :: "operation \<Rightarrow> kwargs \<Rightarrow> rds_region \<Rightarrow> rds_region" where
  "effect add_tags_to_resource kw r =
     (case kw_str kw ''ResourceName'' of
        None \<Rightarrow> r
      | Some arn \<Rightarrow>
          r\<lparr>resource_tags := (resource_tags r)
               (arn := tags_after_adding (resource_tags r arn) (kw_tags kw ''Tags''))\<rparr>)"
| "effect describe_db_snapshots kw r = r"
| "effect describe_db_instances kw r = r"
| "effect list_tags_for_resource kw r = r"
| "effect copy_db_snapshot kw r = r"
| "effect create_db_snapshot kw r = r"
| "effect delete_db_snapshot kw r = r"
| "effect modify_db_snapshot_attribute kw r = r"

fun is_mutation :: "operation \<Rightarrow> bool" where
  "is_mutation describe_db_snapshots = False"
| "is_mutation describe_db_instances = False"
| "is_mutation list_tags_for_resource = False"
| "is_mutation copy_db_snapshot = True"
| "is_mutation create_db_snapshot = True"
| "is_mutation delete_db_snapshot = True"
| "is_mutation add_tags_to_resource = True"
| "is_mutation modify_db_snapshot_attribute = True"

definition mutations :: "aws \<Rightarrow> (string \<times> operation \<times> kwargs) list" where
  "mutations w = filter (\<lambda>c. is_mutation (fst (snd c))) (calls w)"

text \<open>
  One call \<open>client.op(**kw)\<close>: the request is logged; a rejected request raises
  \<open>ClientError\<close> and changes nothing else; otherwise the provider answers from the
  catalogue of the client's region and applies the request's effect to it.
\<close>

definition invoke :: "string \<Rightarrow> operation \<Rightarrow> kwargs \<Rightarrow> aws \<Rightarrow> (exn + response) \<times> aws" where
  "invoke client op kw w =
     (case faults w client op kw of
        Some code \<Rightarrow> (Inl (ClientError code), w\<lparr>calls := calls w @ [(client, op, kw)]\<rparr>)
      | None \<Rightarrow>
          (Inr (answer (rds w client) op kw),
           w\<lparr>rds := (rds w)(client := effect op kw (rds w client)),
             calls := calls w @ [(client, op, kw)]\<rparr>))"

section \<open>The descriptors and the configuration\<close>

text \<open>
  Modelled from the spec: the classes \<open>BackupResource\<close> and \<open>EntityResource\<close> of the
  repository are not among the sources. The spec gives a backup descriptor a \<open>name\<close>, a
  \<open>backup_id\<close> that is unset until a create or copy call succeeds, and a \<open>tags\<close>
  mapping; the adapter also reads \<open>entity_id\<close>, the identifier of the source entity. An
  entity descriptor has an id, a region, a creation time and tags, in the order of the
  constructor call in \<open>get_entities_to_backup\<close>.
\<close>

record BackupResource =
  name :: string
  entity_id :: string
  backup_id :: "string option"
  tags :: py_dict

datatype EntityResource =
  EntityResource (resource_id: string) (resource_region: string) (date_created: int)
    (resource_tags_of: py_dict)

text \<open>
  The classmethod \<open>BackupResource.construct(tag_prefix, backup_id, tags)\<close> is not among
  the sources, and the spec says of it only that it reconstructs a descriptor from tags.
  It is a parameter \<open>construct\<close> of the operations that call it, a function of its three
  arguments, and they return whatever it gives: its outcome has any type \<open>'b\<close>, a
  descriptor, or a descriptor or an exception.
\<close>

text \<open>
  Modelled from the spec: the constant \<open>BackupResource.BACKUP_MARKER_TAG\<close> is not among
  the sources; the spec writes the marker key as \<open>{tag_prefix}:backup-marker\<close>.
\<close>

definition BACKUP_MARKER_TAG :: string where
  "BACKUP_MARKER_TAG = ''backup-marker''"

text \<open>
  \<open>RuntimeConfig\<close> is not among the sources either: the configured mode, as
  \<open>get_rds_mode()\<close> returns it, and the two mode constants are parameters. The two
  reads of the mode in \<open>backup_resource\<close> see the same value.
\<close>

record RuntimeConfig =
  get_rds_mode :: string
  RDS_CREATE_SNAPSHOT :: string
  RDS_COPY_AUTOMATED_SNAPSHOT :: string

section \<open>The RDS adapter\<close>

text \<open>
  Every operation takes the account and returns its result, or the exception it ends
  with, together with the account after the calls it made.
\<close>

definition is_backup_available :: "string \<Rightarrow> string \<Rightarrow> aws \<Rightarrow> (exn + bool) \<times> aws" where
  "is_backup_available backup_region bid w =
     (let rds_client = boto3_client w (Some backup_region) in
      case invoke rds_client describe_db_snapshots [(''DBSnapshotIdentifier'', Str bid)] w of
        (Inl e, w1) \<Rightarrow> (Inl e, w1)
      | (Inr snapshots, w1) \<Rightarrow>
          (case DBSnapshots snapshots of
             [] \<Rightarrow> (Inl IndexError, w1)
           | s # rest \<Rightarrow> (Inr (Status s = ''available''), w1)))"

definition get_resource_type :: string where
  "get_resource_type = ''RDS Instance''"

definition get_engine_type :: string where
  "get_engine_type = ''rds''"

definition backup_from_latest_automated ::
  "BackupResource \<Rightarrow> aws \<Rightarrow> (exn + BackupResource) \<times> aws" where
  "backup_from_latest_automated br w =
     (let rds_client = boto3_client w None in
      case invoke rds_client describe_db_snapshots
             [(''DBInstanceIdentifier'', Str (entity_id br)),
              (''SnapshotType'', Str ''automated''),
              (''MaxRecords'', Num 20)] w of
        (Inl e, w1) \<Rightarrow> (Inl e, w1)
      | (Inr resp, w1) \<Rightarrow>
          (case sorted_reverse SnapshotCreateTime (DBSnapshots resp) of
             [] \<Rightarrow> (Inl IndexError, w1)
           | latest # rest \<Rightarrow>
               (let automated_snapshot_id = DBSnapshotIdentifier latest in
                case invoke rds_client copy_db_snapshot
                       [(''SourceDBSnapshotIdentifier'', Str automated_snapshot_id),
                        (''TargetDBSnapshotIdentifier'', Str (name br)),
                        (''CopyTags'', Bool False)] w1 of
                  (Inl e, w2) \<Rightarrow> (Inl e, w2)
                | (Inr done, w2) \<Rightarrow> (Inr (br\<lparr>backup_id := Some (name br)\<rparr>), w2))))"

definition backup_from_instance ::
  "BackupResource \<Rightarrow> aws \<Rightarrow> (exn + BackupResource) \<times> aws" where
  "backup_from_instance br w =
     (let rds_client = boto3_client w None in
      case invoke rds_client create_db_snapshot
             [(''DBSnapshotIdentifier'', Str (name br)),
              (''DBInstanceIdentifier'', Str (entity_id br))] w of
        (Inl e, w1) \<Rightarrow> (Inl e, w1)
      | (Inr done, w1) \<Rightarrow> (Inr (br\<lparr>backup_id := Some (name br)\<rparr>), w1))"

definition backup_resource ::
  "RuntimeConfig \<Rightarrow> BackupResource \<Rightarrow> aws \<Rightarrow> (exn + BackupResource) \<times> aws" where
  "backup_resource cfg br w =
     (if get_rds_mode cfg = RDS_CREATE_SNAPSHOT cfg then backup_from_instance br w
      else if get_rds_mode cfg = RDS_COPY_AUTOMATED_SNAPSHOT cfg
      then backup_from_latest_automated br w
      else (Inl (Exception (''Only '' @ RDS_COPY_AUTOMATED_SNAPSHOT cfg @ '' and '' @
                   RDS_CREATE_SNAPSHOT cfg @ '' rds backup '' @
                   ''modes supported - set rds backup mode using rds_backup_mode configuration option '')),
            w))"

definition delete_backup :: "BackupResource \<Rightarrow> aws \<Rightarrow> (exn + unit) \<times> aws" where
  "delete_backup br w =
     (let rds_client = boto3_client w None in
      case invoke rds_client delete_db_snapshot
             [(''DBInstanceIdentifier'', Str (entity_id br))] w of
        (Inl e, w1) \<Rightarrow> (Inl e, w1)
      | (Inr done, w1) \<Rightarrow> (Inr (), w1))"

text \<open>
  The identifier passed to the lookup is the descriptor's \<open>backup_id\<close>, whether it is
  set or not: an unset id is passed as \<open>None\<close>.
\<close>

definition tag_backup_resource :: "BackupResource \<Rightarrow> aws \<Rightarrow> (exn + unit) \<times> aws" where
  "tag_backup_resource br w =
     (let rds_client = boto3_client w None in
      case invoke rds_client describe_db_snapshots
             [(''DBSnapshotIdentifier'',
               (case backup_id br of None \<Rightarrow> PyNone | Some i \<Rightarrow> Str i))] w of
        (Inl e, w1) \<Rightarrow> (Inl e, w1)
      | (Inr snapshots, w1) \<Rightarrow>
          (case DBSnapshots snapshots of
             [] \<Rightarrow> (Inl IndexError, w1)
           | s # rest \<Rightarrow>
               (let snapshot_arn = DBSnapshotArn s in
                case invoke rds_client add_tags_to_resource
                       [(''ResourceName'', Str snapshot_arn),
                        (''Tags'', TagItems (map (\<lambda>k. (k, value_of (tags br) k))
                                               (map fst (tags br))))] w1 of
                  (Inl e, w2) \<Rightarrow> (Inl e, w2)
                | (Inr done, w2) \<Rightarrow> (Inr (), w2))))"

definition share_backup_with_account ::
  "string \<Rightarrow> string \<Rightarrow> string \<Rightarrow> aws \<Rightarrow> (exn + unit) \<times> aws" where
  "share_backup_with_account backup_region bid aws_account_id w =
     (let rds_client = boto3_client w (Some backup_region) in
      case invoke rds_client modify_db_snapshot_attribute
             [(''DBSnapshotIdentifier'', Str bid),
              (''AttributeName'', Str ''restore''),
              (''ValuesToAdd'', StrList [aws_account_id])] w of
        (Inl e, w1) \<Rightarrow> (Inl e, w1)
      | (Inr done, w1) \<Rightarrow> (Inr (), w1))"

definition copy_backup_to_region :: "string \<Rightarrow> string \<Rightarrow> aws \<Rightarrow> (exn + string) \<times> aws" where
  "copy_backup_to_region bid region w =
     (let local_region = region_name w;
          client_local = boto3_client w None;
          rds_client = boto3_client w (Some region) in
      case invoke client_local describe_db_snapshots [(''DBSnapshotIdentifier'', Str bid)] w of
        (Inl e, w1) \<Rightarrow> (Inl e, w1)
      | (Inr snapshots, w1) \<Rightarrow>
          (case DBSnapshots snapshots of
             [] \<Rightarrow> (Inl IndexError, w1)
           | snapshot # rest \<Rightarrow>
               (case invoke rds_client copy_db_snapshot
                       [(''SourceDBSnapshotIdentifier'', Str (DBSnapshotArn snapshot)),
                        (''TargetDBSnapshotIdentifier'', Str bid),
                        (''SourceRegion'', Str local_region),
                        (''CopyTags'', Bool False)] w1 of
                  (Inl e, w2) \<Rightarrow> (Inl e, w2)
                | (Inr done, w2) \<Rightarrow> (Inr bid, w2))))"

definition get_backup_resource ::
  "(string \<Rightarrow> string \<Rightarrow> py_dict \<Rightarrow> 'b) \<Rightarrow> string \<Rightarrow> string \<Rightarrow> aws \<Rightarrow> (exn + 'b) \<times> aws"
  where
  "get_backup_resource construct backup_region bid w =
     (let rds_client = boto3_client w (Some backup_region) in
      case invoke rds_client describe_db_snapshots [(''DBSnapshotIdentifier'', Str bid)] w of
        (Inl e, w1) \<Rightarrow> (Inl e, w1)
      | (Inr snapshots, w1) \<Rightarrow>
          (case DBSnapshots snapshots of
             [] \<Rightarrow> (Inl IndexError, w1)
           | snapshot # rest \<Rightarrow>
               (case invoke rds_client list_tags_for_resource
                       [(''ResourceName'', Str (DBSnapshotArn snapshot))] w1 of
                  (Inl e, w2) \<Rightarrow> (Inl e, w2)
                | (Inr resp, w2) \<Rightarrow>
                    (let d_tags = dict (TagList resp) in
                     case subscript d_tags ''shelvery:tag_name'' of
                       Inl e \<Rightarrow> (Inl e, w2)
                     | Inr tag_prefix \<Rightarrow> (Inr (construct tag_prefix bid d_tags), w2)))))"

text \<open>
  The loop of \<open>get_all_instances\<close>: while the last response has a marker, the next page
  is requested with that marker and appended. Nothing bounds the number of rounds, so
  the loop is a partial function: \<open>None\<close> is a loop that never ends.
\<close>

partial_function (option) get_all_instances_loop ::
  "string \<Rightarrow> response \<Rightarrow> db_instance list \<Rightarrow> aws \<Rightarrow> ((exn + db_instance list) \<times> aws) option"
  where
  "get_all_instances_loop rds_client temp_instances db_instances w =
     (case Marker temp_instances of
        None \<Rightarrow> Some (Inr db_instances, w)
      | Some m \<Rightarrow>
          (case invoke rds_client describe_db_instances [(''Marker'', Num m)] w of
             (Inl e, w1) \<Rightarrow> Some (Inl e, w1)
           | (Inr temp, w1) \<Rightarrow>
               get_all_instances_loop rds_client temp (db_instances @ DBInstances temp) w1))"

definition get_all_instances ::
  "string \<Rightarrow> aws \<Rightarrow> ((exn + db_instance list) \<times> aws) option" where
  "get_all_instances rds_client w =
     (case invoke rds_client describe_db_instances [] w of
        (Inl e, w1) \<Rightarrow> Some (Inl e, w1)
      | (Inr temp_instances, w1) \<Rightarrow>
          get_all_instances_loop rds_client temp_instances (DBInstances temp_instances) w1)"

text \<open>The \<open>for\<close> loop of \<open>get_entities_to_backup\<close>, with the list built so far.\<close>

fun collect_tagged ::
  "string \<Rightarrow> string \<Rightarrow> string \<Rightarrow> db_instance list \<Rightarrow> EntityResource list \<Rightarrow> aws \<Rightarrow>
   (exn + EntityResource list) \<times> aws" where
  "collect_tagged rds_client local_region tag_name [] db_entities w = (Inr db_entities, w)"
| "collect_tagged rds_client local_region tag_name (instance # rest) db_entities w =
     (case invoke rds_client list_tags_for_resource
             [(''ResourceName'', Str (DBInstanceArn instance))] w of
        (Inl e, w1) \<Rightarrow> (Inl e, w1)
      | (Inr resp, w1) \<Rightarrow>
          (let d_tags = dict (TagList resp) in
           collect_tagged rds_client local_region tag_name rest
             (if contains d_tags tag_name
              then db_entities @
                   [EntityResource (DBInstanceIdentifier instance) local_region
                      (InstanceCreateTime instance) d_tags]
              else db_entities) w1))"

definition get_entities_to_backup ::
  "string \<Rightarrow> aws \<Rightarrow> ((exn + EntityResource list) \<times> aws) option" where
  "get_entities_to_backup tag_name w =
     (let local_region = region_name w;
          rds_client = boto3_client w None in
      case get_all_instances rds_client w of
        None \<Rightarrow> None
      | Some (Inl e, w1) \<Rightarrow> Some (Inl e, w1)
      | Some (Inr db_instances, w1) \<Rightarrow>
          Some (collect_tagged rds_client local_region tag_name db_instances [] w1))"

text \<open>
  The \<open>for\<close> loop of \<open>get_shelvery_backups_only\<close>; the log line it writes per snapshot
  has no effect on the result and is left out.
\<close>

fun collect_backups ::
  "(string \<Rightarrow> string \<Rightarrow> py_dict \<Rightarrow> 'b) \<Rightarrow> string \<Rightarrow> string \<Rightarrow> string \<Rightarrow> db_snapshot list \<Rightarrow>
   'b list \<Rightarrow> aws \<Rightarrow> (exn + 'b list) \<times> aws" where
  "collect_backups construct rds_client backup_tag_prefix marker_tag [] all_backups w =
     (Inr all_backups, w)"
| "collect_backups construct rds_client backup_tag_prefix marker_tag (snap # rest) all_backups w =
     (case invoke rds_client list_tags_for_resource
             [(''ResourceName'', Str (DBSnapshotArn snap))] w of
        (Inl e, w1) \<Rightarrow> (Inl e, w1)
      | (Inr resp, w1) \<Rightarrow>
          (let d_tags = dict (TagList resp) in
           collect_backups construct rds_client backup_tag_prefix marker_tag rest
             (if contains d_tags marker_tag
              then all_backups @
                   [construct backup_tag_prefix (DBSnapshotIdentifier snap) d_tags]
              else all_backups) w1))"

definition get_shelvery_backups_only ::
  "(string \<Rightarrow> string \<Rightarrow> py_dict \<Rightarrow> 'b) \<Rightarrow> db_snapshot list \<Rightarrow> string \<Rightarrow> string \<Rightarrow> aws \<Rightarrow>
   (exn + 'b list) \<times> aws" where
  "get_shelvery_backups_only construct all_snapshots backup_tag_prefix rds_client w =
     (let marker_tag = backup_tag_prefix @ '':'' @ BACKUP_MARKER_TAG in
      collect_backups construct rds_client backup_tag_prefix marker_tag all_snapshots [] w)"

text \<open>
  The loop of \<open>collect_all_snapshots\<close>: while the last response has a marker, the call
  is made again, without arguments, and the page it returns is appended.
\<close>

partial_function (option) collect_all_snapshots_loop ::
  "string \<Rightarrow> response \<Rightarrow> db_snapshot list \<Rightarrow> aws \<Rightarrow> ((exn + db_snapshot list) \<times> aws) option"
  where
  "collect_all_snapshots_loop rds_client tmp_snapshots all_snapshots w =
     (case Marker tmp_snapshots of
        None \<Rightarrow> Some (Inr all_snapshots, w)
      | Some m \<Rightarrow>
          (case invoke rds_client describe_db_snapshots [] w of
             (Inl e, w1) \<Rightarrow> Some (Inl e, w1)
           | (Inr tmp, w1) \<Rightarrow>
               collect_all_snapshots_loop rds_client tmp (all_snapshots @ DBSnapshots tmp) w1))"

definition collect_all_snapshots ::
  "string \<Rightarrow> aws \<Rightarrow> ((exn + db_snapshot list) \<times> aws) option" where
  "collect_all_snapshots rds_client w =
     (case invoke rds_client describe_db_snapshots [] w of
        (Inl e, w1) \<Rightarrow> Some (Inl e, w1)
      | (Inr tmp_snapshots, w1) \<Rightarrow>
          collect_all_snapshots_loop rds_client tmp_snapshots (DBSnapshots tmp_snapshots) w1)"

definition get_existing_backups ::
  "(string \<Rightarrow> string \<Rightarrow> py_dict \<Rightarrow> 'b) \<Rightarrow> string \<Rightarrow> aws \<Rightarrow> ((exn + 'b list) \<times> aws) option"
  where
  "get_existing_backups construct backup_tag_prefix w =
     (let rds_client = boto3_client w None in
      case collect_all_snapshots rds_client w of
        None \<Rightarrow> None
      | Some (Inl e, w1) \<Rightarrow> Some (Inl e, w1)
      | Some (Inr all_snapshots, w1) \<Rightarrow>
          Some (get_shelvery_backups_only construct all_snapshots backup_tag_prefix rds_client
                  w1))"

section \<open>Notions used in the statements\<close>

text \<open>The operation ended with an exception of the class named \<open>cls\<close>.\<close>

definition raises :: "exn + 'a \<Rightarrow> string \<Rightarrow> bool" where
  "raises r cls = (case r of Inl e \<Rightarrow> exn_class e = cls | Inr v \<Rightarrow> False)"

text \<open>The snapshots of a region that carry a given identifier, in catalogue order.\<close>

definition lookup_snapshots :: "aws \<Rightarrow> string \<Rightarrow> string \<Rightarrow> db_snapshot list" where
  "lookup_snapshots w region bid =
     filter (\<lambda>s. DBSnapshotIdentifier s = bid) (concat (snapshot_pages (rds w region)))"

text \<open>
  The automated snapshots of an entity that the provider returns in the session's
  region: the first twenty in catalogue order.
\<close>

definition automated_candidates :: "aws \<Rightarrow> string \<Rightarrow> db_snapshot list" where
  "automated_candidates w entity =
     take 20 (filter (\<lambda>s. snapshot_DBInstanceIdentifier s = entity \<and>
                           SnapshotType s = ''automated'')
                (concat (snapshot_pages (rds w (region_name w)))))"

text \<open>
  Among the snapshots of a list with the greatest creation time, the one that comes
  first in the list.
\<close>

definition first_latest :: "db_snapshot list \<Rightarrow> db_snapshot" where
  "first_latest xs =
     hd (filter (\<lambda>s. SnapshotCreateTime s = Max (SnapshotCreateTime ` set xs)) xs)"

text \<open>The resource has a tag whose key is exactly \<open>key\<close>.\<close>

definition has_tag :: "rds_region \<Rightarrow> string \<Rightarrow> string \<Rightarrow> bool" where
  "has_tag r arn key = (key \<in> set (map fst (resource_tags r arn)))"

text \<open>The descriptor of an instance of the session's region.\<close>

definition entity_of :: "aws \<Rightarrow> db_instance \<Rightarrow> EntityResource" where
  "entity_of w i =
     EntityResource (DBInstanceIdentifier i) (region_name w) (InstanceCreateTime i)
       (dict (resource_tags (rds w (region_name w)) (DBInstanceArn i)))"

text \<open>
  The round trip at one backup and one account, with \<open>construct\<close> giving a descriptor or
  an exception: tagging the backup and then reading it back by its id in the session's
  region give a descriptor whose tags are, as a mapping, the tags of the backup.
\<close>

definition reads_back_written ::
  "(string \<Rightarrow> string \<Rightarrow> py_dict \<Rightarrow> exn + BackupResource) \<Rightarrow> BackupResource \<Rightarrow> string \<Rightarrow> aws \<Rightarrow> bool"
  where
  "reads_back_written construct br bid w =
     (case fst (get_backup_resource construct (region_name w) bid
                  (snd (tag_backup_resource br w))) of
        Inl e \<Rightarrow> False
      | Inr (Inl e) \<Rightarrow> False
      | Inr (Inr b) \<Rightarrow> map_of (tags b) = map_of (tags br))"

section \<open>An example account\<close>

text \<open>
  Three instances on two pages and five snapshots on two pages, in region
  \<open>eu-west-1\<close>. Instance \<open>db-2\<close> carries a key that only extends the marker tag;
  \<open>db-3\<close> has no automated snapshot; snapshot \<open>snap-1\<close> already has a tag of its
  owner's.
\<close>

definition example_instance :: "string \<Rightarrow> int \<Rightarrow> db_instance" where
  "example_instance i t =
     \<lparr>DBInstanceIdentifier = i, DBInstanceArn = ''arn:db:'' @ i, InstanceCreateTime = t\<rparr>"

definition example_snapshot :: "string \<Rightarrow> string \<Rightarrow> string \<Rightarrow> int \<Rightarrow> db_snapshot" where
  "example_snapshot i kind entity t =
     \<lparr>DBSnapshotIdentifier = i, DBSnapshotArn = ''arn:snapshot:'' @ i,
      Status = ''available'', SnapshotCreateTime = t, SnapshotType = kind,
      snapshot_DBInstanceIdentifier = entity\<rparr>"

definition example_tags :: "string \<Rightarrow> (string \<times> string) list" where
  "example_tags arn =
     (if arn = ''arn:db:db-1'' then [(''shelvery:create_backup'', ''true'')]
      else if arn = ''arn:db:db-2'' then [(''shelvery:create_backup_weekly'', ''true'')]
      else if arn = ''arn:db:db-3'' then [(''Name'', ''reports''), (''shelvery:create_backup'', ''1'')]
      else if arn = ''arn:snapshot:snap-1'' then [(''Owner'', ''dba'')]
      else [])"

definition example_region :: rds_region where
  "example_region =
     \<lparr>instance_pages =
        [[example_instance ''db-1'' 10, example_instance ''db-2'' 20],
         [example_instance ''db-3'' 30]],
      snapshot_pages =
        [[example_snapshot ''rds:db-1-a'' ''automated'' ''db-1'' 100,
          example_snapshot ''snap-1'' ''manual'' ''db-1'' 150],
         [example_snapshot ''rds:db-1-b'' ''automated'' ''db-1'' 200,
          example_snapshot ''rds:db-1-c'' ''automated'' ''db-1'' 200,
          example_snapshot ''snap-2'' ''manual'' ''db-1'' 250]],
      resource_tags = example_tags\<rparr>"

definition empty_region :: rds_region where
  "empty_region = \<lparr>instance_pages = [], snapshot_pages = [], resource_tags = (\<lambda>arn. [])\<rparr>"

definition example_account :: aws where
  "example_account =
     \<lparr>region_name = ''eu-west-1'',
      rds = (\<lambda>r. if r = ''eu-west-1'' then example_region else empty_region),
      faults = no_faults,
      calls = []\<rparr>"

text \<open>
  In the examples the classmethod is stood in for by the function that returns the three
  arguments it is called with.
\<close>

definition construct_arguments :: "string \<Rightarrow> string \<Rightarrow> py_dict \<Rightarrow> string \<times> string \<times> py_dict" where
  "construct_arguments tag_prefix bid d_tags = (tag_prefix, bid, d_tags)"

definition example_config :: "string \<Rightarrow> RuntimeConfig" where
  "example_config mode =
     \<lparr>get_rds_mode = mode, RDS_CREATE_SNAPSHOT = ''RDS_CREATE_SNAPSHOT'',
      RDS_COPY_AUTOMATED_SNAPSHOT = ''RDS_COPY_AUTOMATED_SNAPSHOT''\<rparr>"

definition example_request :: "string \<Rightarrow> BackupResource" where
  "example_request entity =
     \<lparr>name = entity @ ''-20240101'', entity_id = entity, backup_id = None,
      tags = [(''shelvery:tag_name'', ''shelvery''), (''shelvery:backup-marker'', ''true'')]\<rparr>"

text \<open>
  The example account with no tag on any resource, and a backup of \<open>db-1\<close> with id
  \<open>snap-1\<close> whose tags are the provenance tags of \<open>example_request\<close> after the given
  ones.
\<close>

definition untagged_account :: aws where
  "untagged_account =
     \<lparr>region_name = ''eu-west-1'',
      rds = (\<lambda>r. if r = ''eu-west-1'' then example_region\<lparr>resource_tags := (\<lambda>arn. [])\<rparr>
                 else empty_region),
      faults = no_faults,
      calls = []\<rparr>"

definition example_backup :: "(string \<times> string) list \<Rightarrow> BackupResource" where
  "example_backup extra =
     \<lparr>name = ''db-1-20240101'', entity_id = ''db-1'', backup_id = Some ''snap-1'',
      tags = extra @ [(''shelvery:tag_name'', ''shelvery''), (''shelvery:backup-marker'', ''true'')]\<rparr>"

section \<open>Provider calls\<close>

lemma invoke_read:
  "faults w client op kw = None \<Longrightarrow> \<not> is_mutation op \<Longrightarrow>
   invoke client op kw w =
     (Inr (answer (rds w client) op kw), w\<lparr>calls := calls w @ [(client, op, kw)]\<rparr>)"
  by (cases op) (simp_all add: invoke_def)

lemma selects_by_id:
  "selects [(''DBSnapshotIdentifier'', Str bid)] = (\<lambda>s. DBSnapshotIdentifier s = bid)"
  by (rule ext) (simp add: selects_def kw_str_def)

lemma selects_automated:
  "selects [(''DBInstanceIdentifier'', Str entity), (''SnapshotType'', Str ''automated''),
            (''MaxRecords'', Num 20)]
     = (\<lambda>s. snapshot_DBInstanceIdentifier s = entity \<and> SnapshotType s = ''automated'')"
  by (rule ext) (simp add: selects_def kw_str_def)

lemma answer_lookup:
  "DBSnapshots (answer (rds w region) describe_db_snapshots [(''DBSnapshotIdentifier'', Str bid)])
     = lookup_snapshots w region bid"
  by (simp add: lookup_snapshots_def is_listing_def kw_str_def kw_num_def limit_def selects_by_id)

lemma answer_automated:
  "DBSnapshots (answer (rds w (region_name w)) describe_db_snapshots
      [(''DBInstanceIdentifier'', Str entity), (''SnapshotType'', Str ''automated''),
       (''MaxRecords'', Num 20)])
     = automated_candidates w entity"
  by (simp add: automated_candidates_def is_listing_def kw_str_def kw_num_def limit_def
        selects_automated)

section \<open>Creating a backup\<close>

text \<open>
  C7. In the mode \<open>RDS_CREATE_SNAPSHOT\<close>, whatever descriptor \<open>backup_resource\<close> returns
  has \<open>backup_id\<close> equal to the request's \<open>name\<close>; it does return the request with that
  id whenever the provider accepts the create call; and the one call it makes asks for a
  snapshot whose identifier is the request's \<open>name\<close>.
\<close>

theorem create_snapshot_backup_id_is_name:
  assumes "get_rds_mode cfg = RDS_CREATE_SNAPSHOT cfg"
  shows "(\<forall>r. fst (backup_resource cfg br w) = Inr r \<longrightarrow> backup_id r = Some (name br)) \<and>
         (faults w (region_name w) create_db_snapshot
            [(''DBSnapshotIdentifier'', Str (name br)),
             (''DBInstanceIdentifier'', Str (entity_id br))] = None \<longrightarrow>
          fst (backup_resource cfg br w) = Inr (br\<lparr>backup_id := Some (name br)\<rparr>)) \<and>
         calls (snd (backup_resource cfg br w)) =
           calls w @ [(region_name w, create_db_snapshot,
                       [(''DBSnapshotIdentifier'', Str (name br)),
                        (''DBInstanceIdentifier'', Str (entity_id br))])]"
  using assms
  by (auto simp: backup_resource_def backup_from_instance_def invoke_def Let_def
        split: option.splits)

theorem create_snapshot_backup_id_is_name_witness:
  "get_rds_mode (example_config ''RDS_CREATE_SNAPSHOT'') =
     RDS_CREATE_SNAPSHOT (example_config ''RDS_CREATE_SNAPSHOT'') \<and>
   fst (backup_resource (example_config ''RDS_CREATE_SNAPSHOT'') (example_request ''db-1'')
          example_account) =
     Inr ((example_request ''db-1'')\<lparr>backup_id := Some ''db-1-20240101''\<rparr>) \<and>
   calls (snd (backup_resource (example_config ''RDS_CREATE_SNAPSHOT'') (example_request ''db-1'')
                 example_account)) =
     [(''eu-west-1'', create_db_snapshot,
       [(''DBSnapshotIdentifier'', Str ''db-1-20240101''),
        (''DBInstanceIdentifier'', Str ''db-1'')])]"
  using create_snapshot_backup_id_is_name
          [of "example_config ''RDS_CREATE_SNAPSHOT''" "example_request ''db-1''" example_account]
  by (simp add: example_config_def example_request_def example_account_def no_faults_def)

text \<open>
  C4. For a configured mode that is neither of the two mode constants,
  \<open>backup_resource\<close> ends with a plain \<open>Exception\<close> whose message names the two
  supported modes, and the account is as before: no call was made.
\<close>

theorem unknown_mode_raises_plain_exception:
  assumes "get_rds_mode cfg \<noteq> RDS_CREATE_SNAPSHOT cfg"
    and "get_rds_mode cfg \<noteq> RDS_COPY_AUTOMATED_SNAPSHOT cfg"
  shows "backup_resource cfg br w =
           (Inl (Exception (''Only '' @ RDS_COPY_AUTOMATED_SNAPSHOT cfg @ '' and '' @
                   RDS_CREATE_SNAPSHOT cfg @ '' rds backup '' @
                   ''modes supported - set rds backup mode using rds_backup_mode configuration option '')),
            w) \<and>
         raises (fst (backup_resource cfg br w)) ''Exception''"
  using assms by (simp add: backup_resource_def raises_def)

theorem unknown_mode_raises_plain_exception_witness:
  "get_rds_mode (example_config ''bogus'') \<noteq> RDS_CREATE_SNAPSHOT (example_config ''bogus'') \<and>
   get_rds_mode (example_config ''bogus'') \<noteq>
     RDS_COPY_AUTOMATED_SNAPSHOT (example_config ''bogus'') \<and>
   backup_resource (example_config ''bogus'') (example_request ''db-1'') example_account =
     (Inl (Exception ''Only RDS_COPY_AUTOMATED_SNAPSHOT and RDS_CREATE_SNAPSHOT rds backup modes supported - set rds backup mode using rds_backup_mode configuration option ''),
      example_account)"
  using unknown_mode_raises_plain_exception
          [of "example_config ''bogus''" "example_request ''db-1''" example_account]
  by (simp add: example_config_def)

theorem unknown_mode_not_configuration_error:
  "raises (fst (backup_resource (example_config ''bogus'') (example_request ''db-1'')
                  example_account)) ''Exception'' \<and>
   \<not> raises (fst (backup_resource (example_config ''bogus'') (example_request ''db-1'')
                    example_account)) ''ConfigurationError''"
  by (simp add: backup_resource_def raises_def example_config_def)

section \<open>Deleting a backup\<close>

text \<open>
  C3. The one request \<open>delete_backup\<close> makes is a delete whose only argument is
  \<open>DBInstanceIdentifier\<close>, the identifier of the source entity; the descriptor's
  \<open>backup_id\<close> plays no part, so the requests for two backups of one entity are the same.
\<close>

theorem delete_backup_names_the_entity:
  "calls (snd (delete_backup br w)) =
     calls w @ [(region_name w, delete_db_snapshot,
                 [(''DBInstanceIdentifier'', Str (entity_id br))])] \<and>
   delete_backup (br\<lparr>backup_id := other\<rparr>) w = delete_backup br w"
  by (simp add: delete_backup_def invoke_def Let_def split: option.splits)

section \<open>Copying the latest automated snapshot\<close>

text \<open>
  C2. In the mode \<open>RDS_COPY_AUTOMATED_SNAPSHOT\<close>, when the provider returns no automated
  snapshot for the entity, \<open>backup_resource\<close> ends with \<open>IndexError\<close>, the subscript of
  an empty list, and has made no mutating call.
\<close>

theorem no_automated_snapshot_raises_IndexError:
  assumes "get_rds_mode cfg = RDS_COPY_AUTOMATED_SNAPSHOT cfg"
    and "get_rds_mode cfg \<noteq> RDS_CREATE_SNAPSHOT cfg"
    and "faults w = no_faults"
    and "automated_candidates w (entity_id br) = []"
  shows "fst (backup_resource cfg br w) = Inl IndexError \<and>
         mutations (snd (backup_resource cfg br w)) = mutations w"
  using assms answer_automated[of w "entity_id br"]
  by (simp add: backup_resource_def backup_from_latest_automated_def invoke_read no_faults_def
        sorted_reverse_def mutations_def Let_def)

theorem no_automated_snapshot_raises_IndexError_witness:
  "automated_candidates example_account (entity_id (example_request ''db-3'')) = [] \<and>
   fst (backup_resource (example_config ''RDS_COPY_AUTOMATED_SNAPSHOT'') (example_request ''db-3'')
          example_account) = Inl IndexError \<and>
   \<not> raises (fst (backup_resource (example_config ''RDS_COPY_AUTOMATED_SNAPSHOT'')
                    (example_request ''db-3'') example_account)) ''NoAutomatedSnapshotError'' \<and>
   mutations (snd (backup_resource (example_config ''RDS_COPY_AUTOMATED_SNAPSHOT'')
                     (example_request ''db-3'') example_account)) = []"
proof -
  have c: "automated_candidates example_account (entity_id (example_request ''db-3'')) = []"
    by (simp add: automated_candidates_def example_account_def example_region_def
          example_snapshot_def example_request_def)
  have m: "mutations example_account = []"
    by (simp add: mutations_def example_account_def)
  show ?thesis
    using no_automated_snapshot_raises_IndexError
            [of "example_config ''RDS_COPY_AUTOMATED_SNAPSHOT''" example_account
                "example_request ''db-3''"] c m
    by (simp add: example_config_def example_account_def raises_def)
qed

section \<open>Looking a snapshot up by its identifier\<close>

text \<open>
  C10. Each of the four operations that take the first snapshot of a lookup ends with
  \<open>IndexError\<close> exactly when the provider accepts the lookup and no snapshot of the
  region carries the identifier: the subscript is safe only for an identifier that
  resolves.
\<close>

theorem first_snapshot_needs_resolving_id:
  "(fst (is_backup_available region bid w) = Inl IndexError \<longleftrightarrow>
      faults w region describe_db_snapshots [(''DBSnapshotIdentifier'', Str bid)] = None \<and>
      lookup_snapshots w region bid = []) \<and>
   (fst (tag_backup_resource (br\<lparr>backup_id := Some bid\<rparr>) w) = Inl IndexError \<longleftrightarrow>
      faults w (region_name w) describe_db_snapshots [(''DBSnapshotIdentifier'', Str bid)] = None \<and>
      lookup_snapshots w (region_name w) bid = []) \<and>
   (fst (copy_backup_to_region bid target w) = Inl IndexError \<longleftrightarrow>
      faults w (region_name w) describe_db_snapshots [(''DBSnapshotIdentifier'', Str bid)] = None \<and>
      lookup_snapshots w (region_name w) bid = []) \<and>
   (fst (get_backup_resource construct region bid w) = Inl IndexError \<longleftrightarrow>
      faults w region describe_db_snapshots [(''DBSnapshotIdentifier'', Str bid)] = None \<and>
      lookup_snapshots w region bid = [])"
proof -
  have a: "fst (is_backup_available region bid w) = Inl IndexError \<longleftrightarrow>
      faults w region describe_db_snapshots [(''DBSnapshotIdentifier'', Str bid)] = None \<and>
      lookup_snapshots w region bid = []"
    using answer_lookup[of w region bid]
    by (auto simp: is_backup_available_def invoke_def Let_def split: option.splits list.splits)
  have b: "fst (tag_backup_resource (br\<lparr>backup_id := Some bid\<rparr>) w) = Inl IndexError \<longleftrightarrow>
      faults w (region_name w) describe_db_snapshots [(''DBSnapshotIdentifier'', Str bid)] = None \<and>
      lookup_snapshots w (region_name w) bid = []"
    using answer_lookup[of w "region_name w" bid]
    by (auto simp: tag_backup_resource_def invoke_def Let_def split: option.splits list.splits)
  have c: "fst (copy_backup_to_region bid target w) = Inl IndexError \<longleftrightarrow>
      faults w (region_name w) describe_db_snapshots [(''DBSnapshotIdentifier'', Str bid)] = None \<and>
      lookup_snapshots w (region_name w) bid = []"
    using answer_lookup[of w "region_name w" bid]
    by (auto simp: copy_backup_to_region_def invoke_def Let_def split: option.splits list.splits)
  have d: "fst (get_backup_resource construct region bid w) = Inl IndexError \<longleftrightarrow>
      faults w region describe_db_snapshots [(''DBSnapshotIdentifier'', Str bid)] = None \<and>
      lookup_snapshots w region bid = []"
    using answer_lookup[of w region bid]
    by (auto simp: get_backup_resource_def invoke_def Let_def subscript_def
          split: option.splits list.splits sum.splits)
  from a b c d show ?thesis by blast
qed

theorem first_snapshot_needs_resolving_id_witness:
  "lookup_snapshots example_account ''eu-west-1'' ''snap-9'' = [] \<and>
   fst (is_backup_available ''eu-west-1'' ''snap-9'' example_account) = Inl IndexError \<and>
   fst (tag_backup_resource ((example_request ''db-1'')\<lparr>backup_id := Some ''snap-9''\<rparr>)
          example_account) = Inl IndexError \<and>
   fst (copy_backup_to_region ''snap-9'' ''us-east-1'' example_account) = Inl IndexError \<and>
   fst (get_backup_resource construct_arguments ''eu-west-1'' ''snap-9'' example_account) = Inl IndexError \<and>
   lookup_snapshots example_account ''eu-west-1'' ''snap-2'' \<noteq> [] \<and>
   fst (is_backup_available ''eu-west-1'' ''snap-2'' example_account) = Inr True"
proof -
  have l: "lookup_snapshots example_account ''eu-west-1'' ''snap-9'' = []"
    by (simp add: lookup_snapshots_def example_account_def example_region_def
          example_snapshot_def)
  have f: "faults example_account = no_faults" "region_name example_account = ''eu-west-1''"
    by (simp_all add: example_account_def)
  have l2: "lookup_snapshots example_account ''eu-west-1'' ''snap-2'' =
              [example_snapshot ''snap-2'' ''manual'' ''db-1'' 250]"
    by (simp add: lookup_snapshots_def example_account_def example_region_def
          example_snapshot_def)
  have av: "fst (is_backup_available ''eu-west-1'' ''snap-2'' example_account) = Inr True"
    using answer_lookup[of example_account "''eu-west-1''" "''snap-2''"] l2 f
    by (simp add: is_backup_available_def invoke_read no_faults_def Let_def example_snapshot_def)
  show ?thesis
    using first_snapshot_needs_resolving_id
            [of "''eu-west-1''" "''snap-9''" example_account "example_request ''db-1''"
                "''us-east-1''" construct_arguments] l l2 f av
    by (simp add: no_faults_def)
qed

section \<open>Selecting the latest automated snapshot\<close>

lemma sorted_map_le_last:
  "sorted (map f ys) \<Longrightarrow> y \<in> set ys \<Longrightarrow> f y \<le> f (last ys)"
  by (induction ys) (auto split: if_splits)

lemma last_filter_keeps:
  "ys \<noteq> [] \<Longrightarrow> P (last ys) \<Longrightarrow> last (filter P ys) = last ys"
proof (induction ys)
  case Nil
  then show ?case by simp
next
  case (Cons y ys)
  show ?case
  proof (cases "ys = []")
    case True
    with Cons.prems show ?thesis by simp
  next
    case False
    with Cons.prems have "P (last ys)" by simp
    moreover from this False have "filter P ys \<noteq> []"
      using last_in_set[OF False] by (auto simp: filter_empty_conv)
    ultimately show ?thesis using Cons.IH False by simp
  qed
qed

lemma sorted_reverse_Nil_iff: "sorted_reverse f xs = [] \<longleftrightarrow> xs = []"
proof -
  have "length (sorted_reverse f xs) = length xs"
    by (simp add: sorted_reverse_def)
  then show ?thesis by (metis length_0_conv)
qed

lemma hd_sorted_reverse:
  fixes f :: "'a \<Rightarrow> int"
  assumes "xs \<noteq> []"
  shows "hd (sorted_reverse f xs) = hd (filter (\<lambda>x. f x = Max (f ` set xs)) xs)"
proof -
  let ?ys = "sort_key f (rev xs)"
  let ?m = "Max (f ` set xs)"
  have ne: "?ys \<noteq> []"
    using assms by (metis length_0_conv length_rev length_sort)
  have in_set: "last ?ys \<in> set xs"
    using ne last_in_set[OF ne] by simp
  have "\<forall>y \<in> set xs. f y \<le> f (last ?ys)"
    using sorted_map_le_last[of f ?ys] by simp
  then have top: "f (last ?ys) = ?m"
    using in_set by (intro Max_eqI[symmetric]) auto
  have "hd (sorted_reverse f xs) = last ?ys"
    by (simp add: sorted_reverse_def hd_rev)
  also have "\<dots> = last (filter (\<lambda>x. f x = ?m) ?ys)"
    using last_filter_keeps[OF ne, of "\<lambda>x. f x = ?m"] top by simp
  also have "filter (\<lambda>x. f x = ?m) ?ys = rev (filter (\<lambda>x. f x = ?m) xs)"
    by (simp add: sort_key_stable rev_filter)
  finally show ?thesis by (simp add: last_rev)
qed

lemma first_latest_is_maximal:
  assumes "xs \<noteq> []"
  shows "first_latest xs \<in> set xs \<and> (\<forall>s \<in> set xs. SnapshotCreateTime s \<le> SnapshotCreateTime (first_latest xs))"
proof -
  let ?m = "Max (SnapshotCreateTime ` set xs)"
  have "?m \<in> SnapshotCreateTime ` set xs"
    using assms by (intro Max_in) auto
  then have ne: "filter (\<lambda>s. SnapshotCreateTime s = ?m) xs \<noteq> []"
    by (auto simp: filter_empty_conv)
  from hd_in_set[OF ne] have mem: "first_latest xs \<in> set (filter (\<lambda>s. SnapshotCreateTime s = ?m) xs)"
    by (simp add: first_latest_def)
  then have "SnapshotCreateTime (first_latest xs) = ?m" and "first_latest xs \<in> set xs"
    by auto
  then show ?thesis by auto
qed

text \<open>
  C6. In the mode \<open>RDS_COPY_AUTOMATED_SNAPSHOT\<close>, with at least one automated snapshot
  returned for the entity, the copy source is a returned snapshot whose creation time is
  greatest; among several with that time it is the one the provider listed first. It is
  copied under the request's \<open>name\<close>, without tags, and the returned descriptor has
  that name as \<open>backup_id\<close>.
\<close>

theorem copy_automated_selects_latest:
  assumes "get_rds_mode cfg = RDS_COPY_AUTOMATED_SNAPSHOT cfg"
    and "get_rds_mode cfg \<noteq> RDS_CREATE_SNAPSHOT cfg"
    and "faults w = no_faults"
    and "automated_candidates w (entity_id br) \<noteq> []"
  shows "first_latest (automated_candidates w (entity_id br))
           \<in> set (automated_candidates w (entity_id br)) \<and>
         (\<forall>s \<in> set (automated_candidates w (entity_id br)).
            SnapshotCreateTime s
              \<le> SnapshotCreateTime (first_latest (automated_candidates w (entity_id br)))) \<and>
         fst (backup_resource cfg br w) = Inr (br\<lparr>backup_id := Some (name br)\<rparr>) \<and>
         calls (snd (backup_resource cfg br w)) =
           calls w @
           [(region_name w, describe_db_snapshots,
             [(''DBInstanceIdentifier'', Str (entity_id br)),
              (''SnapshotType'', Str ''automated''), (''MaxRecords'', Num 20)]),
            (region_name w, copy_db_snapshot,
             [(''SourceDBSnapshotIdentifier'',
               Str (DBSnapshotIdentifier (first_latest (automated_candidates w (entity_id br))))),
              (''TargetDBSnapshotIdentifier'', Str (name br)),
              (''CopyTags'', Bool False)])]"
proof -
  let ?cs = "automated_candidates w (entity_id br)"
  let ?sorted = "sorted_reverse SnapshotCreateTime ?cs"
  have ne: "?sorted \<noteq> []"
    using assms(4) by (simp add: sorted_reverse_Nil_iff)
  then obtain latest rest where split: "?sorted = latest # rest"
    by (cases ?sorted) auto
  have "latest = hd ?sorted" using split by simp
  then have latest: "latest = first_latest ?cs"
    using hd_sorted_reverse[OF assms(4), of SnapshotCreateTime] by (simp add: first_latest_def)
  have run: "backup_resource cfg br w = backup_from_latest_automated br w"
    using assms(1,2) by (simp add: backup_resource_def)
  have f: "\<And>c op kw. faults w c op kw = None"
    using assms(3) by (simp add: no_faults_def)
  have res: "fst (backup_from_latest_automated br w) = Inr (br\<lparr>backup_id := Some (name br)\<rparr>)"
    using split answer_automated[of w "entity_id br"] f
    by (simp add: backup_from_latest_automated_def invoke_def Let_def)
  have log: "calls (snd (backup_from_latest_automated br w)) =
           calls w @
           [(region_name w, describe_db_snapshots,
             [(''DBInstanceIdentifier'', Str (entity_id br)),
              (''SnapshotType'', Str ''automated''), (''MaxRecords'', Num 20)]),
            (region_name w, copy_db_snapshot,
             [(''SourceDBSnapshotIdentifier'', Str (DBSnapshotIdentifier latest)),
              (''TargetDBSnapshotIdentifier'', Str (name br)),
              (''CopyTags'', Bool False)])]"
    using split answer_automated[of w "entity_id br"] f
    by (simp add: backup_from_latest_automated_def invoke_def Let_def)
  show ?thesis
    using first_latest_is_maximal[OF assms(4)] res log run latest by simp
qed

theorem copy_automated_selects_latest_witness:
  "automated_candidates example_account ''db-1'' =
     [example_snapshot ''rds:db-1-a'' ''automated'' ''db-1'' 100,
      example_snapshot ''rds:db-1-b'' ''automated'' ''db-1'' 200,
      example_snapshot ''rds:db-1-c'' ''automated'' ''db-1'' 200] \<and>
   fst (backup_resource (example_config ''RDS_COPY_AUTOMATED_SNAPSHOT'') (example_request ''db-1'')
          example_account) =
     Inr ((example_request ''db-1'')\<lparr>backup_id := Some ''db-1-20240101''\<rparr>) \<and>
   calls (snd (backup_resource (example_config ''RDS_COPY_AUTOMATED_SNAPSHOT'')
                 (example_request ''db-1'') example_account)) =
     [(''eu-west-1'', describe_db_snapshots,
       [(''DBInstanceIdentifier'', Str ''db-1''), (''SnapshotType'', Str ''automated''),
        (''MaxRecords'', Num 20)]),
      (''eu-west-1'', copy_db_snapshot,
       [(''SourceDBSnapshotIdentifier'', Str ''rds:db-1-b''),
        (''TargetDBSnapshotIdentifier'', Str ''db-1-20240101''),
        (''CopyTags'', Bool False)])]"
proof -
  have c: "automated_candidates example_account ''db-1'' =
     [example_snapshot ''rds:db-1-a'' ''automated'' ''db-1'' 100,
      example_snapshot ''rds:db-1-b'' ''automated'' ''db-1'' 200,
      example_snapshot ''rds:db-1-c'' ''automated'' ''db-1'' 200]"
    by (simp add: automated_candidates_def example_account_def example_region_def
          example_snapshot_def)
  have l: "first_latest (automated_candidates example_account ''db-1'') =
             example_snapshot ''rds:db-1-b'' ''automated'' ''db-1'' 200"
    unfolding c by (simp add: first_latest_def example_snapshot_def)
  have e: "entity_id (example_request ''db-1'') = ''db-1''"
          "name (example_request ''db-1'') = ''db-1-20240101''"
    by (simp_all add: example_request_def)
  have a: "faults example_account = no_faults" "region_name example_account = ''eu-west-1''"
          "calls example_account = []"
    by (simp_all add: example_account_def)
  show ?thesis
    using copy_automated_selects_latest
            [of "example_config ''RDS_COPY_AUTOMATED_SNAPSHOT''" example_account
                "example_request ''db-1''"]
    unfolding e l a
    by (simp add: c example_config_def example_snapshot_def)
qed

section \<open>Dictionaries built from tag lists\<close>

lemma keys_foldl_update:
  "fst ` set (foldl (\<lambda>d kv. AList.update (fst kv) (snd kv) d) d ts) = fst ` set d \<union> fst ` set ts"
  by (induction ts arbitrary: d) (auto simp: AList.dom_update)

lemma distinct_foldl_update:
  "distinct (map fst d) \<Longrightarrow>
   distinct (map fst (foldl (\<lambda>d kv. AList.update (fst kv) (snd kv) d) d ts))"
  by (induction ts arbitrary: d) (auto simp: AList.distinct_update)

lemma map_of_foldl_update:
  "distinct (map fst ts) \<Longrightarrow>
   map_of (foldl (\<lambda>d kv. AList.update (fst kv) (snd kv) d) d ts) = map_of d ++ map_of ts"
proof (induction ts arbitrary: d)
  case Nil
  then show ?case by simp
next
  case (Cons t ts)
  obtain k v where t: "t = (k, v)" by (cases t)
  from Cons.prems t have fresh: "k \<notin> dom (map_of ts)" and d: "distinct (map fst ts)"
    by (auto simp: dom_map_of_conv_image_fst)
  have "map_of (foldl (\<lambda>d kv. AList.update (fst kv) (snd kv) d) d (t # ts))
          = map_of (AList.update k v d) ++ map_of ts"
    using Cons.IH[OF d, of "AList.update k v d"] t by simp
  also have "\<dots> = (map_of d)(k \<mapsto> v) ++ map_of ts"
    by (simp only: AList.update_conv')
  also have "\<dots> = map_of d ++ (map_of ts)(k \<mapsto> v)"
    using fresh by (auto simp: map_add_def fun_eq_iff split: option.splits)
  finally have "map_of (foldl (\<lambda>d kv. AList.update (fst kv) (snd kv) d) d (t # ts))
                  = map_of d ++ (map_of ts)(k \<mapsto> v)" .
  moreover have "map_of (t # ts) = (map_of ts)(k \<mapsto> v)"
    using t by simp
  ultimately show ?case by (simp only:)
qed

lemma contains_dict: "contains (dict ts) k \<longleftrightarrow> k \<in> fst ` set ts"
  using keys_foldl_update[of "[]" ts]
  by (simp add: contains_def dict_def map_of_eq_None_iff)

lemma map_of_dict: "distinct (map fst ts) \<Longrightarrow> map_of (dict ts) = map_of ts"
  using map_of_foldl_update[of ts "[]"] by (simp add: dict_def)

lemma subscript_dict_missing:
  "k \<notin> fst ` set ts \<Longrightarrow> subscript (dict ts) k = Inl (KeyError k)"
  using contains_dict[of ts k] by (simp add: subscript_def contains_def)

lemma items_of_dict:
  "distinct (map fst d) \<Longrightarrow> map (\<lambda>k. (k, value_of d k)) (map fst d) = d"
proof -
  assume dist: "distinct (map fst d)"
  have "\<And>x. x \<in> set d \<Longrightarrow> (fst x, value_of d (fst x)) = x"
  proof -
    fix x assume "x \<in> set d"
    with dist have "map_of d (fst x) = Some (snd x)"
      by (metis map_of_is_SomeI prod.collapse)
    then show "(fst x, value_of d (fst x)) = x"
      by (simp add: value_of_def)
  qed
  then show ?thesis by (simp add: map_idI comp_def)
qed

section \<open>Reading a backup back from its tags\<close>

text \<open>
  C9. When the provider accepts the lookup and no snapshot of the region carries the
  identifier, \<open>get_backup_resource\<close> ends with \<open>IndexError\<close>; when the lookup is
  rejected, with the provider's \<open>ClientError\<close>; when the artifact exists and its tags
  lack the key \<open>shelvery:tag_name\<close>, with \<open>KeyError\<close> on that key. \<open>IndexError\<close> and
  \<open>KeyError\<close> are different classes.
\<close>

theorem get_backup_resource_failures:
  "(faults w region describe_db_snapshots [(''DBSnapshotIdentifier'', Str bid)] = None \<and>
    lookup_snapshots w region bid = [] \<longrightarrow>
      fst (get_backup_resource construct region bid w) = Inl IndexError) \<and>
   (faults w region describe_db_snapshots [(''DBSnapshotIdentifier'', Str bid)] = Some code \<longrightarrow>
      fst (get_backup_resource construct region bid w) = Inl (ClientError code)) \<and>
   (faults w = no_faults \<and> lookup_snapshots w region bid = s # rest \<and>
    ''shelvery:tag_name'' \<notin> fst ` set (resource_tags (rds w region) (DBSnapshotArn s)) \<longrightarrow>
      fst (get_backup_resource construct region bid w) = Inl (KeyError ''shelvery:tag_name'')) \<and>
   exn_class IndexError \<noteq> exn_class (KeyError ''shelvery:tag_name'')"
proof -
  have a: "faults w region describe_db_snapshots [(''DBSnapshotIdentifier'', Str bid)] = None \<and>
    lookup_snapshots w region bid = [] \<longrightarrow>
      fst (get_backup_resource construct region bid w) = Inl IndexError"
    using answer_lookup[of w region bid]
    by (simp add: get_backup_resource_def invoke_def Let_def)
  have b: "faults w region describe_db_snapshots [(''DBSnapshotIdentifier'', Str bid)] = Some code \<longrightarrow>
      fst (get_backup_resource construct region bid w) = Inl (ClientError code)"
    by (simp add: get_backup_resource_def invoke_def Let_def)
  have c: "fst (get_backup_resource construct region bid w) = Inl (KeyError ''shelvery:tag_name'')"
    if f: "faults w = no_faults" and l: "lookup_snapshots w region bid = s # rest"
      and k: "''shelvery:tag_name'' \<notin> fst ` set (resource_tags (rds w region) (DBSnapshotArn s))"
  proof -
    have n: "\<And>c op kw. faults w c op kw = None"
      using f by (simp add: no_faults_def)
    show ?thesis
      using answer_lookup[of w region bid] l subscript_dict_missing[OF k] n
      by (simp add: get_backup_resource_def invoke_def Let_def kw_str_def)
  qed
  from a b c show ?thesis by simp
qed

theorem get_backup_resource_failures_witness:
  "lookup_snapshots example_account ''eu-west-1'' ''snap-9'' = [] \<and>
   fst (get_backup_resource construct_arguments ''eu-west-1'' ''snap-9'' example_account) = Inl IndexError \<and>
   lookup_snapshots example_account ''eu-west-1'' ''snap-2'' =
     [example_snapshot ''snap-2'' ''manual'' ''db-1'' 250] \<and>
   fst (get_backup_resource construct_arguments ''eu-west-1'' ''snap-2'' example_account) =
     Inl (KeyError ''shelvery:tag_name'') \<and>
   fst (get_backup_resource construct_arguments ''eu-west-1'' ''snap-2''
          (example_account\<lparr>faults := (\<lambda>c op kw. Some ''DBSnapshotNotFound'')\<rparr>)) =
     Inl (ClientError ''DBSnapshotNotFound'')"
proof -
  have l9: "lookup_snapshots example_account ''eu-west-1'' ''snap-9'' = []"
    by (simp add: lookup_snapshots_def example_account_def example_region_def
          example_snapshot_def)
  have l2: "lookup_snapshots example_account ''eu-west-1'' ''snap-2'' =
              [example_snapshot ''snap-2'' ''manual'' ''db-1'' 250]"
    by (simp add: lookup_snapshots_def example_account_def example_region_def
          example_snapshot_def)
  have f: "faults example_account = no_faults"
    by (simp add: example_account_def)
  have t: "''shelvery:tag_name'' \<notin> fst ` set (resource_tags (rds example_account ''eu-west-1'')
             (DBSnapshotArn (example_snapshot ''snap-2'' ''manual'' ''db-1'' 250)))"
    by (simp add: example_account_def example_region_def example_snapshot_def example_tags_def)
  have r: "fst (get_backup_resource construct_arguments ''eu-west-1'' ''snap-2''
          (example_account\<lparr>faults := (\<lambda>c op kw. Some ''DBSnapshotNotFound'')\<rparr>)) =
     Inl (ClientError ''DBSnapshotNotFound'')"
    using get_backup_resource_failures
            [of "example_account\<lparr>faults := (\<lambda>c op kw. Some ''DBSnapshotNotFound'')\<rparr>"
                "''eu-west-1''" "''snap-2''" construct_arguments "''DBSnapshotNotFound''"]
    by simp
  show ?thesis
    using get_backup_resource_failures
            [of example_account "''eu-west-1''" "''snap-9''" construct_arguments]
          get_backup_resource_failures
            [of example_account "''eu-west-1''" "''snap-2''" construct_arguments _
                "example_snapshot ''snap-2'' ''manual'' ''db-1'' 250" "[]"]
          l9 l2 f t r
    by (simp add: no_faults_def)
qed

theorem get_backup_resource_not_found_error_kinds:
  "raises (fst (get_backup_resource construct_arguments ''eu-west-1'' ''snap-9'' example_account)) ''IndexError'' \<and>
   \<not> raises (fst (get_backup_resource construct_arguments ''eu-west-1'' ''snap-9'' example_account))
        ''NotFoundError'' \<and>
   raises (fst (get_backup_resource construct_arguments ''eu-west-1'' ''snap-2'' example_account)) ''KeyError'' \<and>
   \<not> raises (fst (get_backup_resource construct_arguments ''eu-west-1'' ''snap-2'' example_account))
        ''MissingProvenanceError''"
proof -
  have a: "fst (get_backup_resource construct_arguments ''eu-west-1'' ''snap-9'' example_account) = Inl IndexError"
    by (simp add: get_backup_resource_def invoke_def Let_def example_account_def no_faults_def
          example_region_def example_snapshot_def is_listing_def kw_str_def kw_num_def limit_def
          selects_by_id)
  have b: "fst (get_backup_resource construct_arguments ''eu-west-1'' ''snap-2'' example_account) =
             Inl (KeyError ''shelvery:tag_name'')"
    by (simp add: get_backup_resource_def invoke_def Let_def example_account_def no_faults_def
          example_region_def example_snapshot_def is_listing_def kw_str_def kw_num_def limit_def
          selects_by_id example_tags_def dict_def subscript_def)
  show ?thesis unfolding a b by (simp add: raises_def)
qed

section \<open>Tagging a backup and reading it back\<close>

lemma update_fresh_key: "k \<notin> fst ` set d \<Longrightarrow> AList.update k v d = d @ [(k, v)]"
  by (induction d) auto

lemma tags_after_adding_fresh:
  "distinct (map fst (d @ ts)) \<Longrightarrow> tags_after_adding d ts = d @ ts"
proof (induction ts arbitrary: d)
  case Nil
  then show ?case by (simp add: tags_after_adding_def)
next
  case (Cons t ts)
  obtain k v where t: "t = (k, v)" by (cases t)
  from Cons.prems t have fresh: "k \<notin> fst ` set d" and rest: "distinct (map fst ((d @ [(k, v)]) @ ts))"
    by auto
  have "tags_after_adding d (t # ts) = tags_after_adding (d @ [(k, v)]) ts"
    using t update_fresh_key[OF fresh] by (simp add: tags_after_adding_def)
  also have "\<dots> = (d @ [(k, v)]) @ ts"
    by (rule Cons.IH[OF rest])
  finally show ?case using t by simp
qed

lemma dict_distinct: "distinct (map fst ts) \<Longrightarrow> dict ts = ts"
  using tags_after_adding_fresh[of "[]" ts] by (simp add: dict_def tags_after_adding_def)

lemma get_backup_resource_ok:
  assumes "faults w = no_faults"
    and "lookup_snapshots w region bid = s # rest"
    and "map_of (dict (resource_tags (rds w region) (DBSnapshotArn s))) ''shelvery:tag_name''
           = Some p"
  shows "fst (get_backup_resource construct region bid w) =
           Inr (construct p bid (dict (resource_tags (rds w region) (DBSnapshotArn s))))"
proof -
  have n: "\<And>c op kw. faults w c op kw = None"
    using assms(1) by (simp add: no_faults_def)
  show ?thesis
    using answer_lookup[of w region bid] assms(2,3) n
    by (simp add: get_backup_resource_def invoke_def Let_def kw_str_def subscript_def)
qed

lemma tag_backup_resource_ok:
  assumes "faults w = no_faults"
    and "backup_id br = Some bid"
    and "lookup_snapshots w (region_name w) bid = s # rest"
    and "distinct (map fst (tags br))"
  shows "tag_backup_resource br w =
           (Inr (),
            w\<lparr>rds := (rds w)(region_name w :=
                  (rds w (region_name w))\<lparr>resource_tags :=
                     (resource_tags (rds w (region_name w)))
                       (DBSnapshotArn s :=
                          tags_after_adding
                            (resource_tags (rds w (region_name w)) (DBSnapshotArn s))
                            (tags br))\<rparr>),
              calls := calls w @
                [(region_name w, describe_db_snapshots, [(''DBSnapshotIdentifier'', Str bid)]),
                 (region_name w, add_tags_to_resource,
                  [(''ResourceName'', Str (DBSnapshotArn s)),
                   (''Tags'', TagItems (tags br))])]\<rparr>)"
proof -
  have n: "\<And>c op kw. faults w c op kw = None"
    using assms(1) by (simp add: no_faults_def)
  show ?thesis
    using answer_lookup[of w "region_name w" bid] assms(2,3) n items_of_dict[OF assms(4)]
    by (simp add: tag_backup_resource_def invoke_def Let_def kw_str_def kw_tags_def)
qed

text \<open>
  C8. Let backup \<open>br\<close> have a set \<open>backup_id\<close> that resolves in the session's region and
  tags with distinct keys that include \<open>shelvery:tag_name\<close>; let the tags the artifact
  already has be distinct in their keys too, and let no call be rejected. Then
  \<open>tag_backup_resource\<close> succeeds, and \<open>get_backup_resource\<close> on the same id in that
  region, right after it, returns what \<open>construct\<close> gives for the value of
  \<open>shelvery:tag_name\<close>, the id and a dictionary \<open>d_tags\<close> of all the tags of the
  artifact: as a mapping, the tags it had before overridden by the tags of \<open>br\<close>. This
  mapping is the one that was written exactly when the artifact had no tag key outside
  the tags of \<open>br\<close>; when it had none in common with them, \<open>d_tags\<close> is its previous tags
  followed by the tags of \<open>br\<close>. This holds whatever function \<open>construct\<close> is.
\<close>

theorem tag_then_get_reads_back_merged_tags:
  assumes "faults w = no_faults"
    and "backup_id br = Some bid"
    and "lookup_snapshots w (region_name w) bid = s # rest"
    and "distinct (map fst (tags br))"
    and "distinct (map fst (resource_tags (rds w (region_name w)) (DBSnapshotArn s)))"
    and "map_of (tags br) ''shelvery:tag_name'' = Some p"
  shows "fst (tag_backup_resource br w) = Inr () \<and>
         (\<exists>d_tags.
            fst (get_backup_resource construct (region_name w) bid
                   (snd (tag_backup_resource br w)))
              = Inr (construct p bid d_tags) \<and>
            map_of d_tags =
              map_of (resource_tags (rds w (region_name w)) (DBSnapshotArn s)) ++ map_of (tags br) \<and>
            (map_of d_tags = map_of (tags br) \<longleftrightarrow>
               fst ` set (resource_tags (rds w (region_name w)) (DBSnapshotArn s))
                 \<subseteq> fst ` set (tags br)) \<and>
            (fst ` set (resource_tags (rds w (region_name w)) (DBSnapshotArn s))
               \<inter> fst ` set (tags br) = {} \<longrightarrow>
             d_tags = resource_tags (rds w (region_name w)) (DBSnapshotArn s) @ tags br))"
proof -
  let ?r = "region_name w"
  let ?old = "resource_tags (rds w ?r) (DBSnapshotArn s)"
  let ?stored = "tags_after_adding ?old (tags br)"
  let ?w2 = "snd (tag_backup_resource br w)"
  note tagged = tag_backup_resource_ok[OF assms(1-4)]
  have f2: "faults ?w2 = no_faults"
    using assms(1) by (simp add: tagged)
  have l2: "lookup_snapshots ?w2 ?r bid = s # rest"
    using assms(3) by (simp add: tagged lookup_snapshots_def)
  have t2: "resource_tags (rds ?w2 ?r) (DBSnapshotArn s) = ?stored"
    by (simp add: tagged)
  have dist: "distinct (map fst ?stored)"
    using assms(5) by (simp add: tags_after_adding_def distinct_foldl_update)
  have m: "map_of (dict ?stored) = map_of ?old ++ map_of (tags br)"
    using map_of_dict[OF dist] map_of_foldl_update[OF assms(4), of ?old]
    by (simp add: tags_after_adding_def)
  have p: "map_of (dict ?stored) ''shelvery:tag_name'' = Some p"
    using assms(6) by (simp add: m map_add_def)
  have g: "fst (get_backup_resource construct ?r bid ?w2) = Inr (construct p bid (dict ?stored))"
    using get_backup_resource_ok[OF f2 l2, of p construct] p by (simp add: t2)
  have iff: "map_of (dict ?stored) = map_of (tags br) \<longleftrightarrow> fst ` set ?old \<subseteq> fst ` set (tags br)"
  proof
    assume "map_of (dict ?stored) = map_of (tags br)"
    then have "dom (map_of ?old ++ map_of (tags br)) = dom (map_of (tags br))"
      by (simp add: m)
    then have "dom (map_of ?old) \<subseteq> dom (map_of (tags br))"
      by auto
    then show "fst ` set ?old \<subseteq> fst ` set (tags br)"
      by (simp add: dom_map_of_conv_image_fst)
  next
    assume "fst ` set ?old \<subseteq> fst ` set (tags br)"
    then have "dom (map_of ?old) \<subseteq> dom (map_of (tags br))"
      by (simp add: dom_map_of_conv_image_fst)
    then show "map_of (dict ?stored) = map_of (tags br)"
      unfolding m by (auto simp: map_add_def fun_eq_iff split: option.splits)
  qed
  have apart: "dict ?stored = ?old @ tags br"
    if "fst ` set ?old \<inter> fst ` set (tags br) = {}"
  proof -
    have d: "distinct (map fst (?old @ tags br))"
      using that assms(4,5) by auto
    show ?thesis
      using tags_after_adding_fresh[OF d] dict_distinct[OF d] by simp
  qed
  have apart': "fst ` set ?old \<inter> fst ` set (tags br) = {} \<longrightarrow> dict ?stored = ?old @ tags br"
    using apart by blast
  have ok: "fst (tag_backup_resource br w) = Inr ()"
    by (simp add: tagged)
  show ?thesis
    by (intro conjI exI[where x = "dict ?stored"]) (rule ok g m iff apart')+
qed

theorem tag_then_get_reads_back_merged_tags_witness:
  "lookup_snapshots example_account ''eu-west-1'' ''snap-1'' =
     [example_snapshot ''snap-1'' ''manual'' ''db-1'' 150] \<and>
   resource_tags (rds example_account ''eu-west-1'')
     (DBSnapshotArn (example_snapshot ''snap-1'' ''manual'' ''db-1'' 150)) = [(''Owner'', ''dba'')] \<and>
   fst (tag_backup_resource (example_backup []) example_account) = Inr () \<and>
   fst (get_backup_resource construct_arguments ''eu-west-1'' ''snap-1''
          (snd (tag_backup_resource (example_backup []) example_account)))
     = Inr (''shelvery'', ''snap-1'',
            [(''Owner'', ''dba''), (''shelvery:tag_name'', ''shelvery''),
             (''shelvery:backup-marker'', ''true'')])"
proof -
  have l1: "lookup_snapshots example_account (region_name example_account) ''snap-1'' =
              [example_snapshot ''snap-1'' ''manual'' ''db-1'' 150]"
    by (simp add: lookup_snapshots_def example_account_def example_region_def
          example_snapshot_def)
  have f: "faults example_account = no_faults"
    and r: "region_name example_account = ''eu-west-1''"
    by (simp_all add: example_account_def)
  have old: "resource_tags (rds example_account ''eu-west-1'')
               (DBSnapshotArn (example_snapshot ''snap-1'' ''manual'' ''db-1'' 150)) =
             [(''Owner'', ''dba'')]"
    by (simp add: example_account_def example_region_def example_snapshot_def example_tags_def)
  have t: "tags (example_backup []) =
             [(''shelvery:tag_name'', ''shelvery''), (''shelvery:backup-marker'', ''true'')]"
    and b: "backup_id (example_backup []) = Some ''snap-1''"
    by (simp_all add: example_backup_def)
  show ?thesis
    using tag_then_get_reads_back_merged_tags
            [where w = example_account and br = "example_backup []" and bid = "''snap-1''"
               and s = "example_snapshot ''snap-1'' ''manual'' ''db-1'' 150" and rest = "[]"
               and p = "''shelvery''" and construct = construct_arguments, OF f b l1]
          l1
    unfolding t r old
    by (auto simp: construct_arguments_def)
qed

text \<open>
  The claim itself fails whatever \<open>construct\<close> is. Tagging \<open>snap-1\<close>, which has the tag
  \<open>Owner\<close>, with the two provenance tags, and tagging an untagged \<open>snap-1\<close> with \<open>Owner\<close>
  and the two provenance tags, leave the artifact with the same tags, so that
  \<open>construct\<close> is called with the same arguments and gives the same outcome; but the
  tags written differ.
\<close>

theorem round_trip_fails_for_some_backup_whatever_construct:
  "\<not> (\<exists>construct.
         reads_back_written construct (example_backup []) ''snap-1'' example_account \<and>
         reads_back_written construct (example_backup [(''Owner'', ''dba'')]) ''snap-1''
           untagged_account)"
proof -
  let ?L = "[(''Owner'', ''dba''), (''shelvery:tag_name'', ''shelvery''),
             (''shelvery:backup-marker'', ''true'')]"
  have l1: "lookup_snapshots example_account (region_name example_account) ''snap-1'' =
              [example_snapshot ''snap-1'' ''manual'' ''db-1'' 150]"
    by (simp add: lookup_snapshots_def example_account_def example_region_def
          example_snapshot_def)
  have l2: "lookup_snapshots untagged_account (region_name untagged_account) ''snap-1'' =
              [example_snapshot ''snap-1'' ''manual'' ''db-1'' 150]"
    by (simp add: lookup_snapshots_def untagged_account_def example_region_def
          example_snapshot_def)
  have f: "faults example_account = no_faults" "faults untagged_account = no_faults"
    and r: "region_name example_account = ''eu-west-1''"
           "region_name untagged_account = ''eu-west-1''"
    by (simp_all add: example_account_def untagged_account_def)
  have old1: "resource_tags (rds example_account ''eu-west-1'')
               (DBSnapshotArn (example_snapshot ''snap-1'' ''manual'' ''db-1'' 150)) =
             [(''Owner'', ''dba'')]"
    by (simp add: example_account_def example_region_def example_snapshot_def example_tags_def)
  have old2: "resource_tags (rds untagged_account ''eu-west-1'')
               (DBSnapshotArn (example_snapshot ''snap-1'' ''manual'' ''db-1'' 150)) = []"
    by (simp add: untagged_account_def)
  have t: "tags (example_backup []) =
             [(''shelvery:tag_name'', ''shelvery''), (''shelvery:backup-marker'', ''true'')]"
          "tags (example_backup [(''Owner'', ''dba'')]) = ?L"
    and b: "\<And>x. backup_id (example_backup x) = Some ''snap-1''"
    by (simp_all add: example_backup_def)
  have g1: "fst (get_backup_resource construct ''eu-west-1'' ''snap-1''
                   (snd (tag_backup_resource (example_backup []) example_account)))
              = Inr (construct ''shelvery'' ''snap-1'' ?L)" for construct :: "string \<Rightarrow> string \<Rightarrow> py_dict \<Rightarrow> exn + BackupResource"
    using tag_then_get_reads_back_merged_tags
            [where w = example_account and br = "example_backup []" and bid = "''snap-1''"
               and s = "example_snapshot ''snap-1'' ''manual'' ''db-1'' 150" and rest = "[]"
               and p = "''shelvery''" and construct = construct, OF f(1) b l1]
    unfolding t r old1
    by auto
  have g2: "fst (get_backup_resource construct ''eu-west-1'' ''snap-1''
                   (snd (tag_backup_resource (example_backup [(''Owner'', ''dba'')])
                           untagged_account)))
              = Inr (construct ''shelvery'' ''snap-1'' ?L)" for construct :: "string \<Rightarrow> string \<Rightarrow> py_dict \<Rightarrow> exn + BackupResource"
    using tag_then_get_reads_back_merged_tags
            [where w = untagged_account and br = "example_backup [(''Owner'', ''dba'')]"
               and bid = "''snap-1''"
               and s = "example_snapshot ''snap-1'' ''manual'' ''db-1'' 150" and rest = "[]"
               and p = "''shelvery''" and construct = construct, OF f(2) b l2]
    unfolding t r old2
    by auto
  have differ: "map_of (tags (example_backup [])) \<noteq> map_of (tags (example_backup [(''Owner'', ''dba'')]))"
  proof
    assume "map_of (tags (example_backup [])) = map_of (tags (example_backup [(''Owner'', ''dba'')]))"
    then have "map_of (tags (example_backup [])) ''Owner''
                 = map_of (tags (example_backup [(''Owner'', ''dba'')])) ''Owner''"
      by simp
    then show False by (simp add: example_backup_def)
  qed
  show ?thesis
  proof
    assume "\<exists>construct.
         reads_back_written construct (example_backup []) ''snap-1'' example_account \<and>
         reads_back_written construct (example_backup [(''Owner'', ''dba'')]) ''snap-1''
           untagged_account"
    then obtain construct where
      a: "reads_back_written construct (example_backup []) ''snap-1'' example_account" and
      c: "reads_back_written construct (example_backup [(''Owner'', ''dba'')]) ''snap-1''
            untagged_account"
      by blast
    from a obtain x where x: "construct ''shelvery'' ''snap-1'' ?L = Inr x"
      and x1: "map_of (tags x) = map_of (tags (example_backup []))"
      by (auto simp: reads_back_written_def r g1 split: sum.splits)
    from c x have "map_of (tags x) = map_of (tags (example_backup [(''Owner'', ''dba'')]))"
      by (auto simp: reads_back_written_def r g2 split: sum.splits)
    with x1 differ show False by simp
  qed
qed

section \<open>Listing all instances\<close>

lemma get_all_instances_loop_drains:
  assumes "faults w = no_faults"
    and "Marker temp = Some m"
    and "m < length (instance_pages (rds w c))"
  shows "get_all_instances_loop c temp acc w =
           Some (Inr (acc @ concat (drop m (instance_pages (rds w c)))),
                 w\<lparr>calls := calls w @
                     map (\<lambda>k. (c, describe_db_instances, [(''Marker'', Num k)]))
                       [m..<length (instance_pages (rds w c))]\<rparr>)"
  using assms
proof (induction "length (instance_pages (rds w c)) - m" arbitrary: m temp acc w)
  case 0
  then show ?case by simp
next
  case (Suc n)
  let ?P = "instance_pages (rds w c)"
  let ?w1 = "w\<lparr>calls := calls w @ [(c, describe_db_instances, [(''Marker'', Num m)])]\<rparr>"
  have nf: "faults w c describe_db_instances [(''Marker'', Num m)] = None"
    using Suc.prems(1) by (simp add: no_faults_def)
  have call: "invoke c describe_db_instances [(''Marker'', Num m)] w =
                (Inr (answer (rds w c) describe_db_instances [(''Marker'', Num m)]), ?w1)"
    using invoke_read[OF nf] by simp
  have drop: "drop m ?P = ?P ! m # drop (Suc m) ?P"
    using Suc.prems(3) by (simp add: Cons_nth_drop_Suc)
  have upt: "[m..<length ?P] = m # [Suc m..<length ?P]"
    using Suc.prems(3) by (simp add: upt_conv_Cons)
  show ?case
  proof (cases "Suc m < length ?P")
    case True
    let ?temp = "InstancesResponse (?P ! m) (Some (Suc m))"
    have ans: "answer (rds w c) describe_db_instances [(''Marker'', Num m)] = ?temp"
      using True Suc.prems(3) by (simp add: serve_page_def kw_num_def)
    have n: "n = length (instance_pages (rds ?w1 c)) - Suc m"
      using Suc.hyps(2) by simp
    have ih: "get_all_instances_loop c ?temp (acc @ ?P ! m) ?w1 =
                Some (Inr ((acc @ ?P ! m) @ concat (drop (Suc m) (instance_pages (rds ?w1 c)))),
                      ?w1\<lparr>calls := calls ?w1 @
                          map (\<lambda>k. (c, describe_db_instances, [(''Marker'', Num k)]))
                            [Suc m..<length (instance_pages (rds ?w1 c))]\<rparr>)"
      using Suc.hyps(1)[OF n, of ?temp "acc @ ?P ! m"] Suc.prems(1) True by simp
    show ?thesis
      by (subst get_all_instances_loop.simps)
         (simp add: Suc.prems(2) call ans ih[simplified] drop upt del: answer.simps)
  next
    case False
    let ?temp = "InstancesResponse (?P ! m) None"
    have ans: "answer (rds w c) describe_db_instances [(''Marker'', Num m)] = ?temp"
      using False Suc.prems(3) by (simp add: serve_page_def kw_num_def)
    have last_page: "drop (Suc m) ?P = []" "[Suc m..<length ?P] = []"
      using False by simp_all
    have stop: "get_all_instances_loop c ?temp (acc @ ?P ! m) ?w1 = Some (Inr (acc @ ?P ! m), ?w1)"
      by (subst get_all_instances_loop.simps) simp
    show ?thesis
      by (subst get_all_instances_loop.simps)
         (simp add: Suc.prems(2) call ans stop drop upt last_page del: answer.simps)
  qed
qed

lemma get_all_instances_drains:
  assumes "faults w = no_faults"
  shows "get_all_instances c w =
           Some (Inr (concat (instance_pages (rds w c))),
                 w\<lparr>calls := calls w @
                     (c, describe_db_instances, []) #
                     map (\<lambda>k. (c, describe_db_instances, [(''Marker'', Num k)]))
                       [Suc 0..<length (instance_pages (rds w c))]\<rparr>)"
proof -
  let ?P = "instance_pages (rds w c)"
  let ?w1 = "w\<lparr>calls := calls w @ [(c, describe_db_instances, [])]\<rparr>"
  have nf: "faults w c describe_db_instances [] = None"
    using assms by (simp add: no_faults_def)
  have call: "invoke c describe_db_instances [] w =
                (Inr (answer (rds w c) describe_db_instances []), ?w1)"
    using invoke_read[OF nf] by simp
  show ?thesis
  proof (cases "Suc 0 < length ?P")
    case True
    let ?temp = "InstancesResponse (?P ! 0) (Some (Suc 0))"
    have ans: "answer (rds w c) describe_db_instances [] = ?temp"
      using True by (auto simp: serve_page_def kw_num_def)
    have f1: "faults ?w1 = no_faults" using assms by simp
    have loop: "get_all_instances_loop c ?temp (?P ! 0) ?w1 =
           Some (Inr (?P ! 0 @ concat (drop (Suc 0) (instance_pages (rds ?w1 c)))),
                 ?w1\<lparr>calls := calls ?w1 @
                     map (\<lambda>k. (c, describe_db_instances, [(''Marker'', Num k)]))
                       [Suc 0..<length (instance_pages (rds ?w1 c))]\<rparr>)"
      using get_all_instances_loop_drains[OF f1, of ?temp "Suc 0" c "?P ! 0"] True by simp
    have whole: "?P ! 0 @ concat (drop (Suc 0) ?P) = concat ?P"
      using True by (cases ?P) auto
    show ?thesis
      using loop whole by (simp add: get_all_instances_def call ans del: answer.simps)
  next
    case False
    then have small: "?P = [] \<or> (\<exists>p. ?P = [p])"
      by (cases ?P) auto
    have stop: "\<And>page. get_all_instances_loop c (InstancesResponse page None) page ?w1 =
                  Some (Inr page, ?w1)"
      by (subst get_all_instances_loop.simps) simp
    from small show ?thesis
      using False stop by (auto simp: get_all_instances_def call serve_page_def kw_num_def)
  qed
qed

section \<open>Finding the entities to back up\<close>

lemma collect_tagged_result:
  assumes "faults w = no_faults"
  shows "collect_tagged c lr tag xs acc w =
           (Inr (acc @ map (\<lambda>i. EntityResource (DBInstanceIdentifier i) lr (InstanceCreateTime i)
                                  (dict (resource_tags (rds w c) (DBInstanceArn i))))
                         (filter (\<lambda>i. has_tag (rds w c) (DBInstanceArn i) tag) xs)),
            w\<lparr>calls := calls w @
                map (\<lambda>i. (c, list_tags_for_resource, [(''ResourceName'', Str (DBInstanceArn i))]))
                  xs\<rparr>)"
  using assms
proof (induction xs arbitrary: acc w)
  case Nil
  then show ?case by simp
next
  case (Cons i xs)
  let ?kw = "[(''ResourceName'', Str (DBInstanceArn i))]"
  let ?w1 = "w\<lparr>calls := calls w @ [(c, list_tags_for_resource, ?kw)]\<rparr>"
  have nf: "faults w c list_tags_for_resource ?kw = None"
    using Cons.prems by (simp add: no_faults_def)
  have call: "invoke c list_tags_for_resource ?kw w =
                (Inr (TagsResponse (resource_tags (rds w c) (DBInstanceArn i))), ?w1)"
    using invoke_read[OF nf] by (simp add: kw_str_def)
  have f1: "faults ?w1 = no_faults" using Cons.prems by simp
  show ?case
    using Cons.IH[OF f1]
    by (simp add: call Let_def contains_dict has_tag_def)
qed

text \<open>
  C5. When no call is rejected, \<open>get_entities_to_backup\<close> returns, and its result is
  one descriptor for each instance on any page of the session's region whose tags have
  the marker tag as a key, in the provider's order, and nothing else. A key that merely
  contains or extends the marker does not count. If every instance is tagged, the
  result has as many descriptors as there are instances on all pages together. Every
  page request after the first carries the marker of the response before it.
\<close>

theorem get_entities_to_backup_exact_and_drained:
  assumes "faults w = no_faults"
  shows "(\<exists>w'.
           get_entities_to_backup tag_name w =
             Some (Inr (map (entity_of w)
                          (filter (\<lambda>i. has_tag (rds w (region_name w)) (DBInstanceArn i) tag_name)
                             (concat (instance_pages (rds w (region_name w)))))),
                   w') \<and>
           calls w' =
             calls w @
             (region_name w, describe_db_instances, []) #
             map (\<lambda>k. (region_name w, describe_db_instances, [(''Marker'', Num k)]))
               [Suc 0..<length (instance_pages (rds w (region_name w)))] @
             map (\<lambda>i. (region_name w, list_tags_for_resource,
                        [(''ResourceName'', Str (DBInstanceArn i))]))
               (concat (instance_pages (rds w (region_name w))))) \<and>
         ((\<forall>i \<in> set (concat (instance_pages (rds w (region_name w)))).
             has_tag (rds w (region_name w)) (DBInstanceArn i) tag_name) \<longrightarrow>
          length (filter (\<lambda>i. has_tag (rds w (region_name w)) (DBInstanceArn i) tag_name)
                    (concat (instance_pages (rds w (region_name w)))))
            = length (concat (instance_pages (rds w (region_name w)))))"
proof -
  let ?r = "region_name w"
  let ?P = "instance_pages (rds w ?r)"
  let ?w1 = "w\<lparr>calls := calls w @
               (?r, describe_db_instances, []) #
               map (\<lambda>k. (?r, describe_db_instances, [(''Marker'', Num k)])) [Suc 0..<length ?P]\<rparr>"
  have f1: "faults ?w1 = no_faults" using assms by simp
  have listed: "get_all_instances ?r w = Some (Inr (concat ?P), ?w1)"
    by (rule get_all_instances_drains[OF assms])
  have tagged: "collect_tagged ?r ?r tag_name (concat ?P) [] ?w1 =
           (Inr ([] @ map (\<lambda>i. EntityResource (DBInstanceIdentifier i) ?r (InstanceCreateTime i)
                                  (dict (resource_tags (rds ?w1 ?r) (DBInstanceArn i))))
                         (filter (\<lambda>i. has_tag (rds ?w1 ?r) (DBInstanceArn i) tag_name) (concat ?P))),
            ?w1\<lparr>calls := calls ?w1 @
                map (\<lambda>i. (?r, list_tags_for_resource, [(''ResourceName'', Str (DBInstanceArn i))]))
                  (concat ?P)\<rparr>)"
    by (rule collect_tagged_result[OF f1])
  have same: "(\<lambda>i. EntityResource (DBInstanceIdentifier i) ?r (InstanceCreateTime i)
                     (dict (resource_tags (rds w ?r) (DBInstanceArn i)))) = entity_of w"
    by (rule ext) (simp add: entity_of_def)
  have run: "get_entities_to_backup tag_name w =
           Some (Inr (map (entity_of w)
                        (filter (\<lambda>i. has_tag (rds w ?r) (DBInstanceArn i) tag_name) (concat ?P))),
                 ?w1\<lparr>calls := calls ?w1 @
                     map (\<lambda>i. (?r, list_tags_for_resource,
                               [(''ResourceName'', Str (DBInstanceArn i))]))
                       (concat ?P)\<rparr>)"
    using tagged same by (simp add: get_entities_to_backup_def Let_def listed)
  have count: "length (filter (\<lambda>i. has_tag (rds w ?r) (DBInstanceArn i) tag_name) (concat ?P))
                 = length (concat ?P)"
    if "\<forall>i \<in> set (concat ?P). has_tag (rds w ?r) (DBInstanceArn i) tag_name"
    using that by (simp add: filter_id_conv)
  show ?thesis
    using run count by auto
qed

theorem get_entities_to_backup_exact_and_drained_witness:
  "concat (instance_pages (rds example_account (region_name example_account))) =
     [example_instance ''db-1'' 10, example_instance ''db-2'' 20, example_instance ''db-3'' 30] \<and>
   (\<exists>w'. get_entities_to_backup ''shelvery:create_backup'' example_account =
      Some (Inr [EntityResource ''db-1'' ''eu-west-1'' 10 [(''shelvery:create_backup'', ''true'')],
                 EntityResource ''db-3'' ''eu-west-1'' 30
                   [(''Name'', ''reports''), (''shelvery:create_backup'', ''1'')]],
            w') \<and>
      calls w' =
        [(''eu-west-1'', describe_db_instances, []),
         (''eu-west-1'', describe_db_instances, [(''Marker'', Num 1)]),
         (''eu-west-1'', list_tags_for_resource, [(''ResourceName'', Str ''arn:db:db-1'')]),
         (''eu-west-1'', list_tags_for_resource, [(''ResourceName'', Str ''arn:db:db-2'')]),
         (''eu-west-1'', list_tags_for_resource, [(''ResourceName'', Str ''arn:db:db-3'')])])"
proof -
  have r: "region_name example_account = ''eu-west-1''"
    and f: "faults example_account = no_faults"
    and c: "calls example_account = []"
    by (simp_all add: example_account_def)
  have reg: "rds example_account ''eu-west-1'' = example_region"
    by (simp add: example_account_def)
  have P: "instance_pages example_region =
             [[example_instance ''db-1'' 10, example_instance ''db-2'' 20],
              [example_instance ''db-3'' 30]]"
    by (simp add: example_region_def)
  have t: "has_tag example_region ''arn:db:db-1'' ''shelvery:create_backup''"
          "\<not> has_tag example_region ''arn:db:db-2'' ''shelvery:create_backup''"
          "has_tag example_region ''arn:db:db-3'' ''shelvery:create_backup''"
    by (simp_all add: has_tag_def example_region_def example_tags_def)
  have e: "entity_of example_account (example_instance ''db-1'' 10) =
             EntityResource ''db-1'' ''eu-west-1'' 10 [(''shelvery:create_backup'', ''true'')]"
          "entity_of example_account (example_instance ''db-3'' 30) =
             EntityResource ''db-3'' ''eu-west-1'' 30
               [(''Name'', ''reports''), (''shelvery:create_backup'', ''1'')]"
    by (simp_all add: entity_of_def r reg example_region_def example_instance_def
          example_tags_def dict_def)
  have a: "DBInstanceArn (example_instance ''db-1'' 10) = ''arn:db:db-1''"
          "DBInstanceArn (example_instance ''db-2'' 20) = ''arn:db:db-2''"
          "DBInstanceArn (example_instance ''db-3'' 30) = ''arn:db:db-3''"
    by (simp_all add: example_instance_def)
  have u: "[Suc 0..<2] = [1]" by (simp add: upt_rec)
  show ?thesis
    using get_entities_to_backup_exact_and_drained
            [OF f, of "''shelvery:create_backup''"]
    unfolding r reg P c
    by (simp add: t e a u)
qed

section \<open>Listing all snapshots\<close>

lemma listing_first_page_again:
  assumes "faults w = no_faults"
    and "Suc 0 < length (snapshot_pages (rds w c))"
  shows "invoke c describe_db_snapshots [] w =
           (Inr (SnapshotsResponse (snapshot_pages (rds w c) ! 0) (Some (Suc 0))),
            w\<lparr>calls := calls w @ [(c, describe_db_snapshots, [])]\<rparr>)"
proof -
  have nf: "faults w c describe_db_snapshots [] = None"
    using assms(1) by (simp add: no_faults_def)
  have "answer (rds w c) describe_db_snapshots [] =
          SnapshotsResponse (snapshot_pages (rds w c) ! 0) (Some (Suc 0))"
    using assms(2) by (auto simp: is_listing_def kw_str_def kw_num_def serve_page_def)
  then show ?thesis
    using invoke_read[OF nf] by (simp del: answer.simps)
qed

lemma collect_all_snapshots_loop_never_returns:
  assumes "collect_all_snapshots_loop c tmp acc w = Some y"
    and "Marker tmp \<noteq> None"
    and "faults w = no_faults"
    and "Suc 0 < length (snapshot_pages (rds w c))"
  shows False
  using assms(2-4)
proof (induction rule: collect_all_snapshots_loop.raw_induct[OF _ assms(1)])
  case (1 loop c tmp acc w y)
  let ?w1 = "w\<lparr>calls := calls w @ [(c, describe_db_snapshots, [])]\<rparr>"
  let ?tmp = "SnapshotsResponse (snapshot_pages (rds w c) ! 0) (Some (Suc 0))"
  from "1.prems"(1) obtain m where m: "Marker tmp = Some m"
    by auto
  have again: "loop c ?tmp (acc @ DBSnapshots ?tmp) ?w1 = Some y"
    using "1.hyps" m listing_first_page_again[OF "1.prems"(2,3)] by simp
  show ?case
    using "1.IH"[OF again] "1.prems"(2,3) by simp
qed

text \<open>With at most one page the first response has no marker and the loop body never runs.\<close>

lemma collect_all_snapshots_single_page:
  assumes "faults w = no_faults"
    and "length (snapshot_pages (rds w c)) \<le> Suc 0"
  shows "collect_all_snapshots c w =
           Some (Inr (concat (snapshot_pages (rds w c))),
                 w\<lparr>calls := calls w @ [(c, describe_db_snapshots, [])]\<rparr>)"
proof -
  have nf: "faults w c describe_db_snapshots [] = None"
    using assms(1) by (simp add: no_faults_def)
  have small: "snapshot_pages (rds w c) = [] \<or> (\<exists>p. snapshot_pages (rds w c) = [p])"
    using assms(2) by (cases "snapshot_pages (rds w c)") auto
  have stop: "\<And>page u. collect_all_snapshots_loop c (SnapshotsResponse page None) page u =
                Some (Inr page, u)"
    by (subst collect_all_snapshots_loop.simps) simp
  from small show ?thesis
    using stop invoke_read[OF nf]
    by (auto simp: collect_all_snapshots_def is_listing_def kw_str_def kw_num_def serve_page_def)
qed

text \<open>
  C1. When the provider lists the snapshots of the session's region on two pages or
  more and rejects no call, \<open>collect_all_snapshots\<close> never returns, and neither does
  \<open>get_existing_backups\<close>: every round of the loop repeats the request without a
  marker, gets the first page with its marker again, and goes on.
\<close>

theorem collect_all_snapshots_never_returns_beyond_one_page:
  assumes "faults w = no_faults"
    and "Suc 0 < length (snapshot_pages (rds w (region_name w)))"
  shows "collect_all_snapshots (region_name w) w = None \<and>
         get_existing_backups construct backup_tag_prefix w = None"
proof -
  let ?c = "region_name w"
  let ?w1 = "w\<lparr>calls := calls w @ [(?c, describe_db_snapshots, [])]\<rparr>"
  let ?tmp = "SnapshotsResponse (snapshot_pages (rds w ?c) ! 0) (Some (Suc 0))"
  have start: "collect_all_snapshots ?c w =
                 collect_all_snapshots_loop ?c ?tmp (DBSnapshots ?tmp) ?w1"
    using listing_first_page_again[OF assms] by (simp add: collect_all_snapshots_def)
  have "collect_all_snapshots_loop ?c ?tmp (DBSnapshots ?tmp) ?w1 = None"
  proof (cases "collect_all_snapshots_loop ?c ?tmp (DBSnapshots ?tmp) ?w1")
    case None
    then show ?thesis .
  next
    case (Some y)
    from collect_all_snapshots_loop_never_returns[OF Some] assms
    show ?thesis by simp
  qed
  with start have none: "collect_all_snapshots ?c w = None"
    by simp
  then show ?thesis
    by (simp add: get_existing_backups_def)
qed

theorem collect_all_snapshots_never_returns_beyond_one_page_witness:
  "length (snapshot_pages (rds example_account (region_name example_account))) = 2 \<and>
   example_snapshot ''snap-2'' ''manual'' ''db-1'' 250
     \<in> set (snapshot_pages (rds example_account (region_name example_account)) ! 1) \<and>
   collect_all_snapshots ''eu-west-1'' example_account = None \<and>
   get_existing_backups construct_arguments ''shelvery'' example_account = None"
proof -
  have r: "region_name example_account = ''eu-west-1''"
    and f: "faults example_account = no_faults"
    by (simp_all add: example_account_def)
  have p: "snapshot_pages (rds example_account ''eu-west-1'') =
        [[example_snapshot ''rds:db-1-a'' ''automated'' ''db-1'' 100,
          example_snapshot ''snap-1'' ''manual'' ''db-1'' 150],
         [example_snapshot ''rds:db-1-b'' ''automated'' ''db-1'' 200,
          example_snapshot ''rds:db-1-c'' ''automated'' ''db-1'' 200,
          example_snapshot ''snap-2'' ''manual'' ''db-1'' 250]]"
    by (simp add: example_account_def example_region_def)
  show ?thesis
    using collect_all_snapshots_never_returns_beyond_one_page
            [OF f, of construct_arguments "''shelvery''"]
    unfolding r p
    by simp
qed

end
